theory Spec2Isabelle
  imports Complex_Main
begin

section \<open>Data model of podProcessing.h\<close>

text \<open>
  \<^verbatim>\<open>TimeType\<close> is \<^verbatim>\<open>double\<close> by default, and the output time step is a
  \<^verbatim>\<open>double\<close>. A time is the real value of a finite double; times are compared
  exactly, and the one arithmetic operation on times, the addition of line 240, is the
  rounded addition of doubles (section "Addition of doubles"), because the control flow
  of the output loop depends on it. Matrix coefficients are exact reals: what is
  proved about them are algebraic identities, and rounding inside the matrix products
  is not part of the model. Container sizes are natural numbers; the casts between
  \<^verbatim>\<open>size_t\<close>, \<^verbatim>\<open>unsigned int\<close> and \<^verbatim>\<open>int\<close> in the source are the identity for
  every container of fewer than \<open>2^31\<close> elements, which is assumed throughout.

  \<^verbatim>\<open>PodInputType\<close> is a \<^verbatim>\<open>std::map\<close> from observable type to a \<^verbatim>\<open>std::map\<close>
  from link ends to (observations, (times, reference link end)). The source only
  iterates over both maps from \<^verbatim>\<open>begin( )\<close> to \<^verbatim>\<open>end( )\<close>, so each map is the list
  of its entries in iteration order.
\<close>

type_synonym ('le, 'ref) SingleObservablePodInputType =
  "('le \<times> (real list \<times> (real list \<times> 'ref))) list"

type_synonym ('obs, 'le, 'ref) PodInputType =
  "('obs \<times> ('le, 'ref) SingleObservablePodInputType) list"

section \<open>getConcatenatedTimeVector\<close>

text \<open>
  \<^verbatim>\<open>getObservableSize\<close> is declared outside the files at hand; it is a parameter of
  the model and returns an \<^verbatim>\<open>int\<close>.

  Lines 57 to 63: for every entry of \<^verbatim>\<open>originalTimesList\<close> the inner loop runs
  \<^verbatim>\<open>j = 0 .. currentObservableSize - 1\<close> and pushes the time each round (no round
  when the size is not positive).
\<close>

primrec copyTimeTags :: "int \<Rightarrow> real list \<Rightarrow> real list" where
  "copyTimeTags currentObservableSize [] = []"
| "copyTimeTags currentObservableSize (t # originalTimesList) =
     replicate (nat currentObservableSize) t
       @ copyTimeTags currentObservableSize originalTimesList"

text \<open>Lines 46 to 68: what one link-end entry appends to \<^verbatim>\<open>concatenatedTimes\<close>.\<close>

definition currentTimesList ::
  "int \<Rightarrow> ('le \<times> (real list \<times> (real list \<times> 'ref))) \<Rightarrow> real list" where
  "currentTimesList currentObservableSize dataEntry =
     (if currentObservableSize = 1 then fst (snd (snd dataEntry))
      else copyTimeTags currentObservableSize (fst (snd (snd dataEntry))))"

text \<open>Lines 42 to 69: the loop over the link ends of one observable type.\<close>

primrec linkEndsLoop ::
  "int \<Rightarrow> ('le, 'ref) SingleObservablePodInputType \<Rightarrow> real list \<Rightarrow> real list" where
  "linkEndsLoop currentObservableSize [] concatenatedTimes = concatenatedTimes"
| "linkEndsLoop currentObservableSize (dataEntry # rest) concatenatedTimes =
     linkEndsLoop currentObservableSize rest
       (concatenatedTimes @ currentTimesList currentObservableSize dataEntry)"

text \<open>Lines 35 to 70: the loop over the observable types.\<close>

primrec observablesLoop ::
  "('obs \<Rightarrow> int) \<Rightarrow> ('obs, 'le, 'ref) PodInputType \<Rightarrow> real list \<Rightarrow> real list" where
  "observablesLoop getObservableSize [] concatenatedTimes = concatenatedTimes"
| "observablesLoop getObservableSize (observable # rest) concatenatedTimes =
     observablesLoop getObservableSize rest
       (linkEndsLoop (getObservableSize (fst observable)) (snd observable) concatenatedTimes)"

definition getConcatenatedTimeVector ::
  "('obs \<Rightarrow> int) \<Rightarrow> ('obs, 'le, 'ref) PodInputType \<Rightarrow> real list" where
  "getConcatenatedTimeVector getObservableSize measurementData =
     observablesLoop getObservableSize measurementData []"

text \<open>The sample times of an entry, and the entries of a measurement map in order.\<close>

definition sampleTimes :: "('le \<times> (real list \<times> (real list \<times> 'ref))) \<Rightarrow> real list" where
  "sampleTimes dataEntry = fst (snd (snd dataEntry))"

definition entriesWithSize ::
  "('obs \<Rightarrow> int) \<Rightarrow> ('obs, 'le, 'ref) PodInputType
     \<Rightarrow> (int \<times> ('le \<times> (real list \<times> (real list \<times> 'ref)))) list" where
  "entriesWithSize getObservableSize measurementData =
     concat (map (\<lambda>observable.
        map (\<lambda>dataEntry. (getObservableSize (fst observable), dataEntry)) (snd observable))
        measurementData)"

section \<open>Dense matrices and vectors\<close>

text \<open>
  An \<^verbatim>\<open>Eigen::MatrixXd\<close> is its column count and the list of its rows (the column
  count is kept apart because a matrix may have no row); an \<^verbatim>\<open>Eigen::VectorXd\<close> is
  the list of its coefficients. In a well-formed matrix every row has \<open>cols\<close> entries.
\<close>

datatype matrix = Matrix (cols: nat) (rowList: "real list list")

definition rows :: "matrix \<Rightarrow> nat" where
  "rows A = length (rowList A)"

definition Zero :: "nat \<Rightarrow> nat \<Rightarrow> matrix" where
  "Zero r c = Matrix c (replicate r (replicate c 0))"

text \<open>\<^verbatim>\<open>A.block( i, 0, 1, A.cols( ) )\<close>, read and written, for \<open>i < rows A\<close>.\<close>

definition getRow :: "matrix \<Rightarrow> nat \<Rightarrow> real list" where
  "getRow A i = rowList A ! i"

definition setRow :: "nat \<Rightarrow> real list \<Rightarrow> matrix \<Rightarrow> matrix" where
  "setRow i r A = Matrix (cols A) ((rowList A)[i := r])"

text \<open>\<^verbatim>\<open>A.block( 0, 0, k, A.cols( ) )\<close> and \<^verbatim>\<open>v.segment( 0, k )\<close>, for \<open>k\<close> within the size.\<close>

definition topRows :: "nat \<Rightarrow> matrix \<Rightarrow> matrix" where
  "topRows k A = Matrix (cols A) (take k (rowList A))"

definition segment0 :: "nat \<Rightarrow> real list \<Rightarrow> real list" where
  "segment0 k v = take k v"

definition asDiagonal :: "real list \<Rightarrow> matrix" where
  "asDiagonal v =
     Matrix (length v)
       (map (\<lambda>i. map (\<lambda>j. if i = j then v ! i else 0) [0..<length v]) [0..<length v])"

definition transposeM :: "matrix \<Rightarrow> matrix" where
  "transposeM A =
     Matrix (rows A) (map (\<lambda>j. map (\<lambda>r. r ! j) (rowList A)) [0..<cols A])"

definition addM :: "matrix \<Rightarrow> matrix \<Rightarrow> matrix" where
  "addM A B = Matrix (cols A) (map2 (map2 (+)) (rowList A) (rowList B))"

definition multM :: "matrix \<Rightarrow> matrix \<Rightarrow> matrix" where
  "multM A B =
     Matrix (cols B)
       (map (\<lambda>r. map (\<lambda>j. \<Sum>k\<leftarrow>[0..<cols A]. r ! k * (rowList B ! k ! j)) [0..<cols B])
            (rowList A))"

text \<open>
  \<^verbatim>\<open>MatrixXd::inverse( )\<close> belongs to the Eigen library. It performs no singularity
  check and raises nothing: for an invertible matrix it returns the inverse, otherwise
  its result is undefined (in IEEE arithmetic the division by a zero pivot leaves
  infinities and NaNs). The value \<open>Undefined\<close> stands for such a result, and every
  product with an undefined factor is undefined. The inverse is written by cofactors:
  the determinant by expansion along the first row, the inverse as the adjugate over
  the determinant.
\<close>

datatype eigenResult = Defined matrix | Undefined

definition dropIndex :: "nat \<Rightarrow> 'a list \<Rightarrow> 'a list" where
  "dropIndex i xs = take i xs @ drop (Suc i) xs"

definition minorOf :: "nat \<Rightarrow> nat \<Rightarrow> real list list \<Rightarrow> real list list" where
  "minorOf i j A = map (dropIndex j) (dropIndex i A)"

primrec determinant :: "nat \<Rightarrow> real list list \<Rightarrow> real" where
  "determinant 0 A = 1"
| "determinant (Suc n) A =
     (\<Sum>j\<leftarrow>[0..<Suc n]. (- 1) ^ j * (A ! 0 ! j) * determinant n (minorOf 0 j A))"

definition inverseM :: "matrix \<Rightarrow> eigenResult" where
  "inverseM A =
     (if cols A \<noteq> rows A \<or> determinant (rows A) (rowList A) = 0 then Undefined
      else Defined (Matrix (rows A)
        (map (\<lambda>i. map (\<lambda>j. (- 1) ^ (i + j) * determinant (rows A - 1) (minorOf j i (rowList A))
                              / determinant (rows A) (rowList A))
                   [0..<rows A]) [0..<rows A])))"

definition multR :: "eigenResult \<Rightarrow> eigenResult \<Rightarrow> eigenResult" where
  "multR X Y =
     (case X of Undefined \<Rightarrow> Undefined
      | Defined A \<Rightarrow> (case Y of Undefined \<Rightarrow> Undefined | Defined B \<Rightarrow> Defined (multM A B)))"

section \<open>Collaborators outside the files at hand\<close>

text \<open>
  Modelled from the spec: \<^verbatim>\<open>utilities::getSortOrderOfVectorAndSortedVector\<close> is
  missing. Section 4.2: a permutation of the indices \<open>0..N-1\<close> that sorts the times
  ascending, stable under ties, together with the sorted sequence.
\<close>

definition getSortOrderOfVectorAndSortedVector :: "real list \<Rightarrow> nat list \<times> real list" where
  "getSortOrderOfVectorAndSortedVector unsortedVector =
     (let sortOrder = sort_key (\<lambda>i. unsortedVector ! i) [0..<length unsortedVector]
      in (sortOrder, map (\<lambda>i. unsortedVector ! i) sortOrder))"

text \<open>
  Modelled from the spec: \<^verbatim>\<open>BinarySearchLookupScheme::findNearestLowerNeighbour\<close> is
  missing. Section 4.4: over a non-decreasing sequence, the largest index whose time
  is at most the query, clamped to \<open>[0, N-1]\<close>; the rightmost index among duplicates;
  queries beyond either end are clamped.
\<close>

definition findNearestLowerNeighbour :: "real list \<Rightarrow> real \<Rightarrow> nat" where
  "findNearestLowerNeighbour independentVariableValues valueToLookup =
     length (takeWhile (\<lambda>t. t \<le> valueToLookup) independentVariableValues) - 1"

text \<open>
  Modelled from the spec: \<^verbatim>\<open>linear_algebra::calculateInverseOfUpdatedCovarianceMatrix\<close>
  is missing. Section 4.5: a-priori inverse plus information matrix transposed times
  the diagonal weight matrix times the information matrix.
\<close>

definition calculateInverseOfUpdatedCovarianceMatrix ::
  "matrix \<Rightarrow> real list \<Rightarrow> matrix \<Rightarrow> matrix" where
  "calculateInverseOfUpdatedCovarianceMatrix informationMatrix diagonalOfWeightMatrix
       inverseOfAPrioriCovarianceMatrix =
     addM inverseOfAPrioriCovarianceMatrix
       (multM (multM (transposeM informationMatrix) (asDiagonal diagonalOfWeightMatrix))
          informationMatrix)"

section \<open>Addition of doubles\<close>

text \<open>
  IEEE 754 binary64 addition is the exact sum rounded to the nearest double, ties to
  the even significand. A non-zero double is \<open>m * 2^(e - 52)\<close> with an integer
  \<open>2^52 \<le> |m| < 2^53\<close> in the binade \<open>e \<ge> -1022\<close>; below \<open>2^(-1022)\<close> (subnormal
  range) the spacing of the lowest binade is kept. \<open>binade x\<close> is the exponent of
  \<open>x\<close>, \<open>ulp x\<close> the spacing of the doubles around \<open>x\<close>. Overflow to an infinity
  (sums of magnitude \<open>2^1024\<close> and more) is not modelled: the times at hand are finite.
\<close>

definition binade :: "real \<Rightarrow> int" where
  "binade x = (if x = 0 then - 1022 else max \<lfloor>log 2 \<bar>x\<bar>\<rfloor> (- 1022))"

definition ulp :: "real \<Rightarrow> real" where
  "ulp x = 2 powi (binade x - 52)"

definition roundHalfEven :: "real \<Rightarrow> int" where
  "roundHalfEven r =
     (if r - of_int \<lfloor>r\<rfloor> < 1 / 2 then \<lfloor>r\<rfloor>
      else if 1 / 2 < r - of_int \<lfloor>r\<rfloor> then \<lfloor>r\<rfloor> + 1
      else if even \<lfloor>r\<rfloor> then \<lfloor>r\<rfloor> else \<lfloor>r\<rfloor> + 1)"

definition roundToDouble :: "real \<Rightarrow> real" where
  "roundToDouble x = sgn x * (of_int (roundHalfEven (\<bar>x\<bar> / ulp x)) * ulp x)"

definition doubleAdd :: "real \<Rightarrow> real \<Rightarrow> real" where
  "doubleAdd x y = roundToDouble (x + y)"

definition isDouble :: "real \<Rightarrow> bool" where
  "isDouble x = (roundToDouble x = x)"

section \<open>getTimeOrderedInformationMatrix\<close>

datatype error =
    AprioriCovarianceNotSquare
  | ParametersInconsistentWithInformationMatrix
  | ParametersInconsistentWithNormalizationFactors
  | WeightsInconsistentWithPartials
  | SizesIncompatible
  | OutputTimeNotFound
  | VectorAtOutOfRange
  | ReadOutsideVector

text \<open>
  The first four are the \<^verbatim>\<open>runtime_error\<close>s of lines 187 to 205, then those of
  lines 144 and 259. \<open>VectorAtOutOfRange\<close> is the \<^verbatim>\<open>std::out_of_range\<close> of
  \<^verbatim>\<open>vector::at\<close>. \<open>ReadOutsideVector\<close> is an unchecked \<^verbatim>\<open>operator[]\<close> outside the
  vector: undefined behaviour, which the model reports instead of inventing a value.

  Lines 151 to 155, the loop that copies row \<open>timeVectorSortOrder[ i ]\<close> of the input
  into row \<open>i\<close> of the sorted matrix, over the indices still to visit.
\<close>

primrec sortRowsLoop :: "nat list \<Rightarrow> matrix \<Rightarrow> nat list \<Rightarrow> matrix \<Rightarrow> matrix" where
  "sortRowsLoop timeVectorSortOrder A [] sortedMatrix = sortedMatrix"
| "sortRowsLoop timeVectorSortOrder A (i # rest) sortedMatrix =
     sortRowsLoop timeVectorSortOrder A rest
       (setRow i (getRow A (timeVectorSortOrder ! i)) sortedMatrix)"

text \<open>
  The result is the returned pair and the \<^verbatim>\<open>timeOrder\<close> written through the
  reference argument.
\<close>

definition getTimeOrderedInformationMatrix ::
  "('obs \<Rightarrow> int) \<Rightarrow> ('obs, 'le, 'ref) PodInputType \<Rightarrow> matrix
     \<Rightarrow> error + ((matrix \<times> real list) \<times> nat list)" where
  "getTimeOrderedInformationMatrix getObservableSize measurementData
       typeAndLinkSortedInformationMatrix =
     (let concatenatedTimes = getConcatenatedTimeVector getObservableSize measurementData;
          sortOutput = getSortOrderOfVectorAndSortedVector concatenatedTimes;
          timeVectorSortOrder = fst sortOutput
      in if length timeVectorSortOrder \<noteq> rows typeAndLinkSortedInformationMatrix
         then Inl SizesIncompatible
         else Inr ((sortRowsLoop timeVectorSortOrder typeAndLinkSortedInformationMatrix
                      [0..<length timeVectorSortOrder]
                      (Zero (rows typeAndLinkSortedInformationMatrix)
                            (cols typeAndLinkSortedInformationMatrix)),
                    snd sortOutput),
                   timeVectorSortOrder))"

section \<open>calculateCovarianceMatrixAsFunctionOfTime\<close>

text \<open>Lines 184 to 206, the checks in the order of the source.\<close>

definition checkInput :: "matrix \<Rightarrow> real list \<Rightarrow> real list \<Rightarrow> matrix \<Rightarrow> error option" where
  "checkInput typeAndLinkSortedNormalizedInformationMatrix normalizationFactors
       diagonalOfWeightMatrix normalizedInverseAPrioriCovariance =
     (if cols normalizedInverseAPrioriCovariance \<noteq> rows normalizedInverseAPrioriCovariance
      then Some AprioriCovarianceNotSquare
      else let totalNumberOfParameters = cols normalizedInverseAPrioriCovariance in
        if cols typeAndLinkSortedNormalizedInformationMatrix \<noteq> totalNumberOfParameters
        then Some ParametersInconsistentWithInformationMatrix
        else if length normalizationFactors \<noteq> totalNumberOfParameters
        then Some ParametersInconsistentWithNormalizationFactors
        else if rows typeAndLinkSortedNormalizedInformationMatrix \<noteq> length diagonalOfWeightMatrix
        then Some WeightsInconsistentWithPartials
        else None)"

text \<open>
  Lines 215 to 219: the weights in time order. Coefficient \<open>i\<close> of a zero vector of the
  size of the weight diagonal is overwritten for every \<open>i\<close> below the size of
  \<open>timeOrder\<close>.
\<close>

primrec sortWeightsLoop :: "nat list \<Rightarrow> real list \<Rightarrow> nat list \<Rightarrow> real list \<Rightarrow> real list" where
  "sortWeightsLoop timeOrder diagonalOfWeightMatrix [] ordered = ordered"
| "sortWeightsLoop timeOrder diagonalOfWeightMatrix (i # rest) ordered =
     sortWeightsLoop timeOrder diagonalOfWeightMatrix rest
       (ordered[i := diagonalOfWeightMatrix ! (timeOrder ! i)])"

definition timeOrderedDiagonalOfWeightMatrix :: "nat list \<Rightarrow> real list \<Rightarrow> real list" where
  "timeOrderedDiagonalOfWeightMatrix timeOrder diagonalOfWeightMatrix =
     sortWeightsLoop timeOrder diagonalOfWeightMatrix [0..<length timeOrder]
       (replicate (length diagonalOfWeightMatrix) 0)"

text \<open>
  Lines 247 to 254, the loop over equal consecutive times. Both reads are
  \<^verbatim>\<open>vector::at\<close>, which throws when \<open>currentIndex + 1\<close> is not below the size.
\<close>

function tieLoop :: "real list \<Rightarrow> nat \<Rightarrow> error + nat" where
  "tieLoop orderedTimeVector currentIndex =
     (if length orderedTimeVector \<le> currentIndex + 1 then Inl VectorAtOutOfRange
      else if orderedTimeVector ! currentIndex = orderedTimeVector ! (currentIndex + 1)
      then (if currentIndex + 1 = length orderedTimeVector - 1 then Inr (currentIndex + 1)
            else tieLoop orderedTimeVector (currentIndex + 1))
      else Inr currentIndex)"
  by pat_completeness auto
termination
  by (relation "measure (\<lambda>(orderedTimeVector, currentIndex).
        length orderedTimeVector - currentIndex)") auto

declare tieLoop.simps [simp del]

text \<open>
  Lines 245 to 260. \<^verbatim>\<open>orderedTimeVector.size( ) - 1\<close> is unsigned: for an empty
  vector it wraps to a value no index equals, so the guard holds.
\<close>

definition extendIndex :: "real list \<Rightarrow> nat \<Rightarrow> error + nat" where
  "extendIndex orderedTimeVector currentIndex =
     (case (if orderedTimeVector = [] \<or> currentIndex \<noteq> length orderedTimeVector - 1
            then tieLoop orderedTimeVector currentIndex else Inr currentIndex) of
        Inl e \<Rightarrow> Inl e
      | Inr extended \<Rightarrow>
          if length orderedTimeVector \<le> extended then Inl OutputTimeNotFound
          else Inr extended)"

text \<open>Lines 262 to 270: the value stored for the rows up to \<open>currentIndex\<close>.\<close>

definition covarianceUpTo ::
  "matrix \<Rightarrow> real list \<Rightarrow> matrix \<Rightarrow> matrix \<Rightarrow> nat \<Rightarrow> eigenResult" where
  "covarianceUpTo timeOrderedMatrix timeOrderedWeights normalizedInverseAPrioriCovariance
       unnormalizationMatrix currentIndex =
     (let currentInformationMatrix = topRows (currentIndex + 1) timeOrderedMatrix;
          currentInverseNormalizedCovarianceMatrix =
            calculateInverseOfUpdatedCovarianceMatrix currentInformationMatrix
              (segment0 (currentIndex + 1) timeOrderedWeights)
              normalizedInverseAPrioriCovariance
      in multR (multR (inverseM unnormalizationMatrix)
                      (inverseM currentInverseNormalizedCovarianceMatrix))
               (inverseM unnormalizationMatrix))"

text \<open>
  Lines 237 to 271; line 240 is \<open>doubleAdd\<close>. The loop need not end, so it is a
  partial function: \<open>None\<close> is a run that never returns, \<open>Some (Inl e)\<close> a run that throws \<open>e\<close>, \<open>Some (Inr history)\<close>
  a run that leaves the loop with the map \<open>history\<close>. The vector is not empty here.
\<close>

partial_function (option) outputLoop ::
  "real list \<Rightarrow> matrix \<Rightarrow> real list \<Rightarrow> matrix \<Rightarrow> matrix \<Rightarrow> real \<Rightarrow> real
     \<Rightarrow> (real \<rightharpoonup> eigenResult) \<Rightarrow> (error + (real \<rightharpoonup> eigenResult)) option" where
  "outputLoop orderedTimeVector timeOrderedMatrix timeOrderedWeights
       normalizedInverseAPrioriCovariance unnormalizationMatrix outputTimeStep
       currentTime covarianceMatrixHistory =
     (if currentTime < orderedTimeVector ! (length orderedTimeVector - 1) then
        (case extendIndex orderedTimeVector
                (findNearestLowerNeighbour orderedTimeVector
                   (doubleAdd currentTime outputTimeStep)) of
           Inl e \<Rightarrow> Some (Inl e)
         | Inr currentIndex \<Rightarrow>
             outputLoop orderedTimeVector timeOrderedMatrix timeOrderedWeights
               normalizedInverseAPrioriCovariance unnormalizationMatrix outputTimeStep
               (doubleAdd currentTime outputTimeStep)
               (covarianceMatrixHistory(orderedTimeVector ! currentIndex \<mapsto>
                  covarianceUpTo timeOrderedMatrix timeOrderedWeights
                    normalizedInverseAPrioriCovariance unnormalizationMatrix currentIndex)))
      else Some (Inr covarianceMatrixHistory))"

text \<open>
  The query time after \<open>n\<close> more rounds of line 240, starting from \<open>currentTime\<close>.
\<close>

primrec queryTime :: "real \<Rightarrow> real \<Rightarrow> nat \<Rightarrow> real" where
  "queryTime outputTimeStep currentTime 0 = currentTime"
| "queryTime outputTimeStep currentTime (Suc n) =
     queryTime outputTimeStep (doubleAdd currentTime outputTimeStep) n"

definition calculateCovarianceMatrixAsFunctionOfTime ::
  "('obs \<Rightarrow> int) \<Rightarrow> ('obs, 'le, 'ref) PodInputType \<Rightarrow> matrix \<Rightarrow> real list \<Rightarrow> real
     \<Rightarrow> real list \<Rightarrow> matrix \<Rightarrow> (error + (real \<rightharpoonup> eigenResult)) option" where
  "calculateCovarianceMatrixAsFunctionOfTime getObservableSize measurementData
       typeAndLinkSortedNormalizedInformationMatrix normalizationFactors outputTimeStep
       diagonalOfWeightMatrix normalizedInverseAPrioriCovariance =
     (case checkInput typeAndLinkSortedNormalizedInformationMatrix normalizationFactors
             diagonalOfWeightMatrix normalizedInverseAPrioriCovariance of
        Some e \<Rightarrow> Some (Inl e)
      | None \<Rightarrow>
         (case getTimeOrderedInformationMatrix getObservableSize measurementData
                 typeAndLinkSortedNormalizedInformationMatrix of
            Inl e \<Rightarrow> Some (Inl e)
          | Inr timeOrderedMatrixOutput \<Rightarrow>
              (let orderedTimeVector = snd (fst timeOrderedMatrixOutput);
                   timeOrder = snd timeOrderedMatrixOutput;
                   timeOrderedWeights =
                     timeOrderedDiagonalOfWeightMatrix timeOrder diagonalOfWeightMatrix;
                   unnormalizationMatrix = asDiagonal normalizationFactors
               in if orderedTimeVector = [] then Some (Inl ReadOutsideVector)
                  else outputLoop orderedTimeVector (fst (fst timeOrderedMatrixOutput))
                         timeOrderedWeights normalizedInverseAPrioriCovariance
                         unnormalizationMatrix outputTimeStep (orderedTimeVector ! 0)
                         Map.empty)))"

section \<open>The time-ordered inputs of the output loop\<close>

text \<open>
  Names for what lines 208 to 219 compute from the input: the sort order, the ordered
  time vector, the time-ordered information matrix and weights.
\<close>

definition timeOrderOf :: "('obs \<Rightarrow> int) \<Rightarrow> ('obs, 'le, 'ref) PodInputType \<Rightarrow> nat list" where
  "timeOrderOf getObservableSize measurementData =
     fst (getSortOrderOfVectorAndSortedVector
            (getConcatenatedTimeVector getObservableSize measurementData))"

definition orderedTimeVectorOf ::
  "('obs \<Rightarrow> int) \<Rightarrow> ('obs, 'le, 'ref) PodInputType \<Rightarrow> real list" where
  "orderedTimeVectorOf getObservableSize measurementData =
     snd (getSortOrderOfVectorAndSortedVector
            (getConcatenatedTimeVector getObservableSize measurementData))"

definition timeOrderedMatrixOf ::
  "('obs \<Rightarrow> int) \<Rightarrow> ('obs, 'le, 'ref) PodInputType \<Rightarrow> matrix \<Rightarrow> matrix" where
  "timeOrderedMatrixOf getObservableSize measurementData A =
     sortRowsLoop (timeOrderOf getObservableSize measurementData) A
       [0..<length (timeOrderOf getObservableSize measurementData)]
       (Zero (rows A) (cols A))"

text \<open>
  A valid, non-empty input: the shape checks pass, the information matrix has one row
  per concatenated time tag, and there is a time tag.
\<close>

definition validInput ::
  "('obs \<Rightarrow> int) \<Rightarrow> ('obs, 'le, 'ref) PodInputType \<Rightarrow> matrix \<Rightarrow> real list
     \<Rightarrow> real list \<Rightarrow> matrix \<Rightarrow> bool" where
  "validInput getObservableSize measurementData A normalizationFactors
       diagonalOfWeightMatrix normalizedInverseAPrioriCovariance =
     (checkInput A normalizationFactors diagonalOfWeightMatrix
        normalizedInverseAPrioriCovariance = None
      \<and> length (getConcatenatedTimeVector getObservableSize measurementData) = rows A
      \<and> getConcatenatedTimeVector getObservableSize measurementData \<noteq> [])"

section \<open>Properties of getConcatenatedTimeVector\<close>

lemma copyTimeTags_concat:
  "copyTimeTags d ts = concat (map (replicate (nat d)) ts)"
  by (induction ts) simp_all

lemma length_copyTimeTags: "length (copyTimeTags d ts) = length ts * nat d"
  by (induction ts) simp_all

lemma linkEndsLoop_append:
  "linkEndsLoop d inner acc = acc @ concat (map (currentTimesList d) inner)"
  by (induction inner arbitrary: acc) simp_all

lemma observablesLoop_append:
  "observablesLoop sz md acc =
     acc @ concat (map (\<lambda>e. currentTimesList (fst e) (snd e)) (entriesWithSize sz md))"
  by (induction md arbitrary: acc)
     (simp_all add: entriesWithSize_def linkEndsLoop_append comp_def)

lemma getConcatenatedTimeVector_concat:
  "getConcatenatedTimeVector sz md =
     concat (map (\<lambda>e. currentTimesList (fst e) (snd e)) (entriesWithSize sz md))"
  by (simp add: getConcatenatedTimeVector_def observablesLoop_append)

lemma length_currentTimesList:
  "1 \<le> d \<Longrightarrow> int (length (currentTimesList d e)) = int (length (sampleTimes e)) * d"
  by (simp add: currentTimesList_def sampleTimes_def length_copyTimeTags)

lemma length_concat_currentTimesList:
  "\<forall>e \<in> set es. 1 \<le> fst e \<Longrightarrow>
   int (length (concat (map (\<lambda>e. currentTimesList (fst e) (snd e)) es))) =
     (\<Sum>e\<leftarrow>es. int (length (sampleTimes (snd e))) * fst e)"
  by (induction es) (simp_all add: length_currentTimesList)

subsection \<open>The layout of the concatenated times\<close>

text \<open>
  C6. getConcatenatedTimeVector visits the (observable type, link ends) entries in
  iteration order; an entry of observable dimension 1 contributes its sample times
  unchanged, an entry of dimension \<open>d > 1\<close> contributes every sample time \<open>d\<close> times in a
  row, sample after sample. With every observable dimension at least 1, the length of
  the result is the sum over the entries of sample count times dimension.
\<close>

theorem getConcatenatedTimeVector_layout:
  assumes "\<forall>e \<in> set (entriesWithSize getObservableSize measurementData). 1 \<le> fst e"
  shows "getConcatenatedTimeVector getObservableSize measurementData =
           concat (map (\<lambda>e. if fst e = 1 then sampleTimes (snd e)
                               else concat (map (replicate (nat (fst e))) (sampleTimes (snd e))))
                       (entriesWithSize getObservableSize measurementData))
         \<and> int (length (getConcatenatedTimeVector getObservableSize measurementData)) =
           (\<Sum>e\<leftarrow>entriesWithSize getObservableSize measurementData.
               int (length (sampleTimes (snd e))) * fst e)"
proof -
  let ?es = "entriesWithSize getObservableSize measurementData"
  have layout: "(\<lambda>e. currentTimesList (fst e) (snd e)) =
      (\<lambda>e. if fst e = 1 then sampleTimes (snd e)
            else concat (map (replicate (nat (fst e))) (sampleTimes (snd e))))"
    by (rule ext) (simp add: currentTimesList_def sampleTimes_def copyTimeTags_concat)
  show ?thesis
    using length_concat_currentTimesList [OF assms] by (simp add: getConcatenatedTimeVector_concat layout)
qed

text \<open>
  One range observable (dimension 1) with samples at 5 and 7, one position observable
  (dimension 3) with samples at 1 and 2 on a single link: 2 + 6 = 8 time tags.
\<close>

theorem getConcatenatedTimeVector_layout_witness:
  "getConcatenatedTimeVector (\<lambda>b. if b then 3 else 1)
      [(False, [((0::nat), ([10, 20], ([5, 7], ())))]),
       (True, [(0, ([1, 2, 3, 4, 5, 6], ([1, 2], ())))])]
     = [5, 7, 1, 1, 1, 2, 2, 2]
   \<and> int (length (getConcatenatedTimeVector (\<lambda>b. if b then 3 else 1)
      [(False, [((0::nat), ([10, 20], ([5, 7], ())))]),
       (True, [(0, ([1, 2, 3, 4, 5, 6], ([1, 2], ())))])])) = 2 * 1 + 2 * 3"
  using getConcatenatedTimeVector_layout [of "\<lambda>b. if b then 3 else 1"
      "[(False, [((0::nat), ([10, 20], ([5, 7], ())))]),
        (True, [(0, ([1, 2, 3, 4, 5, 6], ([1, 2], ())))])]"]
  by (simp add: entriesWithSize_def sampleTimes_def eval_nat_numeral)

section \<open>The index of an output epoch\<close>

lemma findNearestLowerNeighbour_less:
  "ts \<noteq> [] \<Longrightarrow> findNearestLowerNeighbour ts q < length ts"
proof -
  assume "ts \<noteq> []"
  moreover have "length (takeWhile (\<lambda>t. t \<le> q) ts) \<le> length ts"
    by (rule length_takeWhile_le)
  ultimately show ?thesis
    by (cases ts) (simp_all add: findNearestLowerNeighbour_def)
qed

lemma findNearestLowerNeighbour_beyond:
  assumes "\<forall>t \<in> set ts. t \<le> q"
  shows "findNearestLowerNeighbour ts q = length ts - 1"
proof -
  from assms have eq: "takeWhile (\<lambda>t. t \<le> q) ts = ts" by simp
  show ?thesis unfolding findNearestLowerNeighbour_def eq ..
qed

lemma tieLoop_result:
  "currentIndex + 1 < length ts \<Longrightarrow>
   \<exists>j. tieLoop ts currentIndex = Inr j \<and> currentIndex \<le> j \<and> j < length ts
       \<and> ts ! j = ts ! currentIndex \<and> (j = length ts - 1 \<or> ts ! j \<noteq> ts ! (j + 1))"
proof (induction ts currentIndex rule: tieLoop.induct)
  case (1 ts i)
  show ?case
  proof (cases "ts ! i = ts ! (i + 1)")
    case False
    with "1.prems" show ?thesis by (simp add: tieLoop.simps [of ts i])
  next
    case eq: True
    show ?thesis
    proof (cases "i + 1 = length ts - 1")
      case True
      with eq "1.prems" show ?thesis by (simp add: tieLoop.simps [of ts i])
    next
      case False
      with "1.prems" have "i + 1 + 1 < length ts" by simp
      from "1.IH" [OF _ eq False this] "1.prems"
      obtain j where "tieLoop ts (i + 1) = Inr j" "i + 1 \<le> j" "j < length ts"
        "ts ! j = ts ! (i + 1)" "j = length ts - 1 \<or> ts ! j \<noteq> ts ! (j + 1)"
        by auto
      with eq False "1.prems" show ?thesis by (simp add: tieLoop.simps [of ts i])
    qed
  qed
qed

lemma tieLoop_bound: "tieLoop ts i = Inr j \<Longrightarrow> j < length ts"
proof (induction ts i rule: tieLoop.induct)
  case (1 ts i)
  show ?case
  proof (cases "\<not> length ts \<le> i + 1 \<and> ts ! i = ts ! (i + 1)
                 \<and> i + 1 \<noteq> length ts - 1")
    case True
    with "1.prems" have "tieLoop ts (i + 1) = Inr j"
      by (simp add: tieLoop.simps [of ts i])
    with True show ?thesis by (intro "1.IH") simp_all
  next
    case False
    with "1.prems" show ?thesis
      by (auto simp: tieLoop.simps [of ts i] split: if_splits)
  qed
qed

lemma tieLoop_error: "tieLoop ts i = Inl e \<Longrightarrow> e = VectorAtOutOfRange"
proof (induction ts i rule: tieLoop.induct)
  case (1 ts i)
  show ?case
  proof (cases "\<not> length ts \<le> i + 1 \<and> ts ! i = ts ! (i + 1)
                 \<and> i + 1 \<noteq> length ts - 1")
    case True
    with "1.prems" have "tieLoop ts (i + 1) = Inl e"
      by (simp add: tieLoop.simps [of ts i])
    with True show ?thesis by (intro "1.IH") simp_all
  next
    case False
    with "1.prems" show ?thesis
      by (auto simp: tieLoop.simps [of ts i] split: if_splits)
  qed
qed

lemma extendIndex_result:
  assumes "currentIndex < length ts"
  shows "\<exists>j. extendIndex ts currentIndex = Inr j \<and> currentIndex \<le> j \<and> j < length ts
       \<and> ts ! j = ts ! currentIndex \<and> (j = length ts - 1 \<or> ts ! j \<noteq> ts ! (j + 1))"
proof (cases "currentIndex = length ts - 1")
  case True
  with assms show ?thesis by (auto simp: extendIndex_def)
next
  case False
  with assms have "currentIndex + 1 < length ts" by simp
  from tieLoop_result [OF this] False show ?thesis
    by (auto simp: extendIndex_def)
qed

lemma extendIndex_found: "extendIndex ts i \<noteq> Inl OutputTimeNotFound"
proof (cases "ts = [] \<or> i \<noteq> length ts - 1")
  case True
  show ?thesis
  proof (cases "tieLoop ts i")
    case (Inl e)
    with True tieLoop_error [OF Inl] show ?thesis by (simp add: extendIndex_def)
  next
    case (Inr j)
    with True tieLoop_bound [OF Inr] show ?thesis by (simp add: extendIndex_def)
  qed
next
  case False
  then have "\<not> length ts \<le> length ts - 1" by (cases ts) simp_all
  with False show ?thesis by (simp add: extendIndex_def del: One_nat_def)
qed

section \<open>Properties of the addition of doubles\<close>

lemma two_powr_int: "(2::real) powr real_of_int k = 2 powi k"
  by (simp add: powr_real_of_int')

lemma two_powr_int_Suc: "(2::real) powr (real_of_int k + 1) = 2 powi (k + 1)"
  using two_powr_int [of "k + 1"] by simp

lemma floor_log2_bounds:
  assumes "x \<noteq> 0"
  shows "2 powi \<lfloor>log 2 \<bar>x\<bar>\<rfloor> \<le> \<bar>x\<bar>" and "\<bar>x\<bar> < 2 powi (\<lfloor>log 2 \<bar>x\<bar>\<rfloor> + 1)"
proof -
  from assms have pos: "0 < \<bar>x\<bar>" by simp
  have "2 powr real_of_int \<lfloor>log 2 \<bar>x\<bar>\<rfloor> \<le> \<bar>x\<bar>
      \<and> \<bar>x\<bar> < 2 powr real_of_int (\<lfloor>log 2 \<bar>x\<bar>\<rfloor> + 1)"
    using floor_log_eq_powr_iff [OF pos, of 2 "\<lfloor>log 2 \<bar>x\<bar>\<rfloor>"] by simp
  then show "2 powi \<lfloor>log 2 \<bar>x\<bar>\<rfloor> \<le> \<bar>x\<bar>" and "\<bar>x\<bar> < 2 powi (\<lfloor>log 2 \<bar>x\<bar>\<rfloor> + 1)"
    by (simp_all add: two_powr_int two_powr_int_Suc)
qed

lemma floor_log2_eqI:
  assumes "2 powi e \<le> \<bar>x\<bar>" and "\<bar>x\<bar> < 2 powi (e + 1)"
  shows "\<lfloor>log 2 \<bar>x\<bar>\<rfloor> = e"
proof -
  have "(0::real) < 2 powi e" by simp
  with assms(1) have pos: "0 < \<bar>x\<bar>" by linarith
  from assms have "2 powr real_of_int e \<le> \<bar>x\<bar> \<and> \<bar>x\<bar> < 2 powr (real_of_int e + 1)"
    by (simp add: two_powr_int two_powr_int_Suc)
  then show ?thesis
    using floor_log_eq_powr_iff [OF pos, of 2 e] by simp
qed

lemma binade_eqI:
  assumes "2 powi e \<le> \<bar>x\<bar>" and "\<bar>x\<bar> < 2 powi (e + 1)" and "- 1022 \<le> e"
  shows "binade x = e"
proof -
  have "(0::real) < 2 powi e" by simp
  with assms(1) have "0 < \<bar>x\<bar>" by linarith
  then have "x \<noteq> 0" by simp
  with floor_log2_eqI [OF assms(1,2)] assms(3) show ?thesis by (simp add: binade_def)
qed

lemma binade_upper: "x \<noteq> 0 \<Longrightarrow> \<bar>x\<bar> < 2 powi (binade x + 1)"
proof -
  assume "x \<noteq> 0"
  from floor_log2_bounds(2) [OF this]
  have "\<bar>x\<bar> < 2 powi (\<lfloor>log 2 \<bar>x\<bar>\<rfloor> + 1)" .
  also have "\<dots> \<le> 2 powi (binade x + 1)"
    using \<open>x \<noteq> 0\<close> by (intro power_int_increasing) (simp_all add: binade_def)
  finally show ?thesis .
qed

lemma binade_lower: "x \<noteq> 0 \<Longrightarrow> - 1022 < binade x \<Longrightarrow> 2 powi binade x \<le> \<bar>x\<bar>"
  using floor_log2_bounds(1) [of x] by (simp add: binade_def max_def split: if_splits)

lemma binade_mono:
  assumes "x \<noteq> 0" and "\<bar>x\<bar> \<le> \<bar>y\<bar>"
  shows "binade x \<le> binade y"
proof -
  from assms have "0 < \<bar>x\<bar>" by simp
  with assms(2) have "log 2 \<bar>x\<bar> \<le> log 2 \<bar>y\<bar>" by simp
  then have "\<lfloor>log 2 \<bar>x\<bar>\<rfloor> \<le> \<lfloor>log 2 \<bar>y\<bar>\<rfloor>" by (rule floor_mono)
  moreover from assms have "y \<noteq> 0" by auto
  ultimately show ?thesis using assms(1) by (simp add: binade_def)
qed

lemma ulp_pos: "0 < ulp x"
  by (simp add: ulp_def)

lemma roundHalfEven_of_int: "roundHalfEven (of_int n) = n"
  by (simp add: roundHalfEven_def)

lemma roundHalfEven_bounds: "\<lfloor>r\<rfloor> \<le> roundHalfEven r" "roundHalfEven r \<le> \<lfloor>r\<rfloor> + 1"
  by (simp_all add: roundHalfEven_def)

lemma roundHalfEven_mono:
  assumes "r \<le> s"
  shows "roundHalfEven r \<le> roundHalfEven s"
proof (cases "\<lfloor>r\<rfloor> = \<lfloor>s\<rfloor>")
  case True
  with assms show ?thesis by (auto simp: roundHalfEven_def)
next
  case False
  with assms have "\<lfloor>r\<rfloor> + 1 \<le> \<lfloor>s\<rfloor>" using floor_mono [OF assms] by simp
  with roundHalfEven_bounds(2) [of r] roundHalfEven_bounds(1) [of s] show ?thesis by simp
qed

lemma roundHalfEven_le: "r \<le> of_int n \<Longrightarrow> roundHalfEven r \<le> n"
  using roundHalfEven_mono [of r "of_int n"] by (simp add: roundHalfEven_of_int)

lemma roundHalfEven_ge: "of_int n \<le> r \<Longrightarrow> n \<le> roundHalfEven r"
  using roundHalfEven_mono [of "of_int n" r] by (simp add: roundHalfEven_of_int)

lemma binade_minus: "binade (- x) = binade x"
  by (simp add: binade_def)

lemma roundToDouble_minus: "roundToDouble (- x) = - roundToDouble x"
  by (simp add: roundToDouble_def ulp_def binade_minus sgn_minus)

lemma roundToDouble_pos:
  "0 < x \<Longrightarrow> roundToDouble x = of_int (roundHalfEven (x / ulp x)) * ulp x"
  by (simp add: roundToDouble_def)

lemma roundToDouble_zero: "roundToDouble 0 = 0"
  by (simp add: roundToDouble_def)

lemma roundToDouble_nonneg:
  assumes "0 \<le> x"
  shows "0 \<le> roundToDouble x"
proof (cases "x = 0")
  case True
  then show ?thesis by (simp add: roundToDouble_zero)
next
  case False
  with assms have pos: "0 < x" by simp
  then have "0 \<le> x / ulp x" using ulp_pos [of x] by simp
  then have "(0::int) \<le> roundHalfEven (x / ulp x)"
    using roundHalfEven_ge [of 0 "x / ulp x"] by simp
  with pos ulp_pos [of x] show ?thesis by (simp add: roundToDouble_pos)
qed

lemma ulp_times: "2 powi 53 * ulp x = 2 powi (binade x + 1)" "2 powi 52 * ulp x = 2 powi binade x"
proof -
  have "(2::real) powi 53 * 2 powi (binade x - 52) = 2 powi (53 + (binade x - 52))"
    by (subst power_int_add) simp_all
  then show "2 powi 53 * ulp x = 2 powi (binade x + 1)"
    by (simp add: ulp_def add.commute)
  have "(2::real) powi 52 * 2 powi (binade x - 52) = 2 powi (52 + (binade x - 52))"
    by (subst power_int_add) simp_all
  then show "2 powi 52 * ulp x = 2 powi binade x"
    by (simp add: ulp_def)
qed

lemma roundToDouble_upper:
  assumes "0 < x"
  shows "roundToDouble x \<le> 2 powi (binade x + 1)"
proof -
  from assms have "x < 2 powi (binade x + 1)" using binade_upper [of x] by simp
  then have "x < of_int (2 ^ 53) * ulp x" using ulp_times(1) [of x] by simp
  then have "x / ulp x \<le> of_int (2 ^ 53)" using ulp_pos [of x] by (simp add: field_simps)
  then have "roundHalfEven (x / ulp x) \<le> 2 ^ 53" by (rule roundHalfEven_le)
  then have "real_of_int (roundHalfEven (x / ulp x)) \<le> 2 powi 53" by simp
  then have "real_of_int (roundHalfEven (x / ulp x)) * ulp x \<le> 2 powi 53 * ulp x"
    using ulp_pos [of x] by (simp only: mult_le_cancel_right) simp
  also have "\<dots> = 2 powi (binade x + 1)" by (rule ulp_times(1))
  finally show ?thesis by (simp only: roundToDouble_pos [OF assms])
qed

lemma roundToDouble_lower:
  assumes "0 < x" and "- 1022 < binade x"
  shows "2 powi binade x \<le> roundToDouble x"
proof -
  from assms have "2 powi binade x \<le> x" using binade_lower [of x] by simp
  then have "of_int (2 ^ 52) * ulp x \<le> x" using ulp_times(2) [of x] by simp
  then have "of_int (2 ^ 52) \<le> x / ulp x" using ulp_pos [of x] by (simp add: field_simps)
  then have "2 ^ 52 \<le> roundHalfEven (x / ulp x)" by (rule roundHalfEven_ge)
  then have "2 powi 52 \<le> real_of_int (roundHalfEven (x / ulp x))" by simp
  then have "2 powi 52 * ulp x \<le> real_of_int (roundHalfEven (x / ulp x)) * ulp x"
    using ulp_pos [of x] by (simp only: mult_le_cancel_right) simp
  then have "2 powi binade x \<le> real_of_int (roundHalfEven (x / ulp x)) * ulp x"
    by (simp only: ulp_times(2))
  then show ?thesis by (simp only: roundToDouble_pos [OF assms(1)])
qed

lemma roundToDouble_mono_pos:
  assumes "0 < x" and "x \<le> y"
  shows "roundToDouble x \<le> roundToDouble y"
proof -
  from assms have y: "0 < y" by simp
  from assms have le: "binade x \<le> binade y" by (intro binade_mono) simp_all
  show ?thesis
  proof (cases "binade x = binade y")
    case True
    then have u: "ulp x = ulp y" by (simp add: ulp_def)
    from assms(2) have "x / ulp y \<le> y / ulp y" using ulp_pos [of y]
      by (simp add: divide_le_cancel)
    then have "roundHalfEven (x / ulp y) \<le> roundHalfEven (y / ulp y)"
      by (rule roundHalfEven_mono)
    then have "real_of_int (roundHalfEven (x / ulp y)) * ulp y
        \<le> real_of_int (roundHalfEven (y / ulp y)) * ulp y"
      using ulp_pos [of y] by (simp only: mult_le_cancel_right) simp
    with assms(1) y u show ?thesis by (simp add: roundToDouble_pos)
  next
    case False
    with le have lt: "binade x + 1 \<le> binade y" by simp
    have "- 1022 \<le> binade x" by (simp add: binade_def)
    with lt have low: "- 1022 < binade y" by simp
    have "roundToDouble x \<le> 2 powi (binade x + 1)" by (rule roundToDouble_upper [OF assms(1)])
    also have "\<dots> \<le> 2 powi binade y" using lt by (intro power_int_increasing) simp_all
    also have "\<dots> \<le> roundToDouble y" by (rule roundToDouble_lower [OF y low])
    finally show ?thesis .
  qed
qed

lemma roundToDouble_mono:
  assumes "x \<le> y"
  shows "roundToDouble x \<le> roundToDouble y"
proof -
  consider "0 < x" | "x \<le> 0" "0 \<le> y" | "y < 0" by linarith
  then show ?thesis
  proof cases
    case 1
    from 1 assms show ?thesis by (rule roundToDouble_mono_pos)
  next
    case 2
    from 2(1) have "0 \<le> roundToDouble (- x)" by (intro roundToDouble_nonneg) simp
    then have "roundToDouble x \<le> 0" by (simp add: roundToDouble_minus)
    also from 2(2) have "0 \<le> roundToDouble y" by (rule roundToDouble_nonneg)
    finally show ?thesis .
  next
    case 3
    with assms have "0 < - y" "- y \<le> - x" by simp_all
    then have "roundToDouble (- y) \<le> roundToDouble (- x)" by (rule roundToDouble_mono_pos)
    then show ?thesis by (simp add: roundToDouble_minus)
  qed
qed

lemma doubleAdd_le:
  assumes "isDouble c" and "x + y \<le> c"
  shows "doubleAdd x y \<le> c"
  using roundToDouble_mono [OF assms(2)] assms(1) by (simp add: doubleAdd_def isDouble_def)

lemma doubleAdd_ge:
  assumes "isDouble c" and "c \<le> x + y"
  shows "c \<le> doubleAdd x y"
  using roundToDouble_mono [OF assms(2)] assms(1) by (simp add: doubleAdd_def isDouble_def)

lemma doubleAdd_mono: "x \<le> x' \<Longrightarrow> doubleAdd x y \<le> doubleAdd x' y"
  by (simp add: doubleAdd_def roundToDouble_mono)

text \<open>Evaluation at a number whose binade is known.\<close>

lemma roundToDouble_binade:
  assumes "2 powi e \<le> \<bar>x\<bar>" and "\<bar>x\<bar> < 2 powi (e + 1)" and "- 1022 \<le> e"
  shows "roundToDouble x =
           sgn x * (of_int (roundHalfEven (\<bar>x\<bar> / 2 powi (e - 52))) * 2 powi (e - 52))"
  by (simp add: roundToDouble_def ulp_def binade_eqI [OF assms])

lemma roundToDouble_int:
  assumes "\<bar>m\<bar> < 2 ^ 53"
  shows "roundToDouble (of_int m) = of_int m"
proof (cases "m = 0")
  case True
  then show ?thesis by (simp add: roundToDouble_zero)
next
  case False
  let ?x = "real_of_int m"
  from False have x0: "?x \<noteq> 0" by simp
  from False have "1 \<le> \<bar>?x\<bar>" by (simp flip: of_int_abs)
  have b0: "0 \<le> binade ?x"
  proof (rule ccontr)
    assume "\<not> 0 \<le> binade ?x"
    then have "binade ?x + 1 \<le> 0" by simp
    then have "(2::real) powi (binade ?x + 1) \<le> 2 powi 0"
      by (intro power_int_increasing) simp_all
    with binade_upper [OF x0] \<open>1 \<le> \<bar>?x\<bar>\<close> show False by simp
  qed
  have b52: "binade ?x \<le> 52"
  proof (rule ccontr)
    assume "\<not> binade ?x \<le> 52"
    then have gt: "53 \<le> binade ?x" by simp
    then have "(2::real) powi 53 \<le> 2 powi binade ?x"
      by (intro power_int_increasing) simp_all
    moreover from gt have "2 powi binade ?x \<le> \<bar>?x\<bar>" by (intro binade_lower [OF x0]) simp
    moreover from assms have "\<bar>?x\<bar> < 2 powi 53" by (simp flip: of_int_abs)
    ultimately show False by simp
  qed
  define k where "k = nat (52 - binade ?x)"
  from b0 b52 have k: "binade ?x - 52 = - int k" by (simp add: k_def)
  have u: "ulp ?x = 1 / 2 ^ k" by (simp add: ulp_def k power_int_minus_divide)
  have "\<bar>?x\<bar> / ulp ?x = of_int (\<bar>m\<bar> * 2 ^ k)" by (simp add: u)
  then have "roundHalfEven (\<bar>?x\<bar> / ulp ?x) = \<bar>m\<bar> * 2 ^ k"
    by (simp only: roundHalfEven_of_int)
  then have "roundToDouble ?x = sgn ?x * (of_int (\<bar>m\<bar> * 2 ^ k) * (1 / 2 ^ k))"
    by (simp only: roundToDouble_def u)
  also have "\<dots> = sgn ?x * \<bar>?x\<bar>" by simp
  also have "\<dots> = ?x" by (simp add: sgn_mult_abs)
  finally show ?thesis .
qed

lemma roundToDouble_Ints: "x \<in> \<int> \<Longrightarrow> \<bar>x\<bar> < 2 ^ 53 \<Longrightarrow> roundToDouble x = x"
  by (auto elim!: Ints_cases intro!: roundToDouble_int simp flip: of_int_abs)

text \<open>Every rounded value is a double, and every double lies on the finest grid.\<close>

lemma binade_small:
  assumes "\<bar>x\<bar> < 2 powi (- 1021)"
  shows "binade x = - 1022"
proof (cases "x = 0")
  case True
  then show ?thesis by (simp add: binade_def)
next
  case False
  have "\<lfloor>log 2 \<bar>x\<bar>\<rfloor> < - 1021"
  proof (rule ccontr)
    assume "\<not> \<lfloor>log 2 \<bar>x\<bar>\<rfloor> < - 1021"
    then have "(2::real) powi (- 1021) \<le> 2 powi \<lfloor>log 2 \<bar>x\<bar>\<rfloor>"
      by (intro power_int_increasing) simp_all
    with floor_log2_bounds(1) [OF False] assms show False by linarith
  qed
  with False show ?thesis by (simp add: binade_def)
qed

lemma two_powi_52: "(2::real) powi 52 * 2 powi (e - 52) = 2 powi e"
proof -
  have "(2::real) powi 52 * 2 powi (e - 52) = 2 powi (52 + (e - 52))"
    by (subst power_int_add) simp_all
  then show ?thesis by simp
qed

lemma roundToDouble_fix:
  assumes "0 < v" and "v = of_int m * 2 powi (binade v - 52)"
  shows "roundToDouble v = v"
proof -
  from assms(2) have "of_int m * ulp v = v" by (simp add: ulp_def)
  then have "v / ulp v = of_int m"
    using ulp_pos [of v] by (simp add: nonzero_divide_eq_eq)
  then have "roundHalfEven (v / ulp v) = m" by (simp only: roundHalfEven_of_int)
  with assms show ?thesis by (simp add: roundToDouble_pos ulp_def)
qed

lemma isDouble_roundToDouble_pos:
  assumes "0 < y"
  shows "roundToDouble (roundToDouble y) = roundToDouble y"
proof -
  define m where "m = roundHalfEven (y / ulp y)"
  define v where "v = roundToDouble y"
  have v: "v = of_int m * ulp y" by (simp add: v_def m_def roundToDouble_pos [OF assms])
  have y0: "y \<noteq> 0" using assms by simp
  have "0 \<le> y / ulp y" using assms ulp_pos [of y] by simp
  then have m0: "0 \<le> m" unfolding m_def using roundHalfEven_ge [of 0 "y / ulp y"] by simp
  have "y < 2 powi (binade y + 1)" using binade_upper [OF y0] assms by simp
  then have "y < of_int (2 ^ 53) * ulp y" using ulp_times(1) [of y] by simp
  then have "y / ulp y \<le> of_int (2 ^ 53)" using ulp_pos [of y] by (simp add: field_simps)
  then have m53: "m \<le> 2 ^ 53" unfolding m_def by (rule roundHalfEven_le)
  have low: "- 1022 \<le> binade y" by (simp add: binade_def)
  consider "m = 0" | "m = 2 ^ 53" | "0 < m" "m < 2 ^ 53" using m0 m53 by linarith
  then have "roundToDouble v = v"
  proof cases
    case 1
    then show ?thesis by (simp add: v roundToDouble_zero)
  next
    case 2
    then have "v = 2 powi 53 * ulp y" by (simp add: v)
    then have val: "v = 2 powi (binade y + 1)" by (simp only: ulp_times(1))
    have "(2::real) powi (binade y + 1) < 2 powi (binade y + 1 + 1)"
      by (intro power_int_strict_increasing) simp_all
    with val low have b: "binade v = binade y + 1"
      by (intro binade_eqI) simp_all
    have "(2::real) powi 52 * 2 powi (binade v - 52) = 2 powi binade v"
      by (rule two_powi_52)
    also have "\<dots> = 2 powi (binade y + 1)" by (simp only: b)
    also have "\<dots> = v" by (simp only: val)
    finally have "v = 2 powi 52 * 2 powi (binade v - 52)" by simp
    then have "v = of_int (2 ^ 52) * 2 powi (binade v - 52)" by simp
    moreover have "0 < v" by (simp add: val)
    ultimately show ?thesis by (rule roundToDouble_fix [rotated])
  next
    case 3
    then have vpos: "0 < v" using ulp_pos [of y] by (simp add: v)
    have b: "binade v = binade y"
    proof (cases "2 ^ 52 \<le> m")
      case True
      then have "(2::real) powi 52 \<le> of_int m" by simp
      then have "2 powi 52 * ulp y \<le> of_int m * ulp y"
        using ulp_pos [of y] by (simp only: mult_le_cancel_right) simp
      then have "2 powi binade y \<le> v" by (simp only: ulp_times(2) v)
      with vpos have lo: "2 powi binade y \<le> \<bar>v\<bar>" by simp
      from 3(2) have "real_of_int m < 2 powi 53" by simp
      then have "of_int m * ulp y < 2 powi 53 * ulp y"
        using ulp_pos [of y] by (simp only: mult_less_cancel_right) simp
      then have "v < 2 powi (binade y + 1)" by (simp only: ulp_times(1) v)
      with vpos have hi: "\<bar>v\<bar> < 2 powi (binade y + 1)" by simp
      from lo hi low show ?thesis by (rule binade_eqI)
    next
      case False
      then have small: "real_of_int m < 2 powi 52" by simp
      have bmin: "binade y = - 1022"
      proof (rule ccontr)
        assume "binade y \<noteq> - 1022"
        with low have "- 1022 < binade y" by simp
        from binade_lower [OF y0 this] assms have "2 powi binade y \<le> y" by simp
        then have "of_int (2 ^ 52) * ulp y \<le> y" using ulp_times(2) [of y] by simp
        then have "of_int (2 ^ 52) \<le> y / ulp y" using ulp_pos [of y] by (simp add: field_simps)
        then have "2 ^ 52 \<le> m" unfolding m_def by (rule roundHalfEven_ge)
        with False show False by simp
      qed
      from small have "of_int m * ulp y < 2 powi 52 * ulp y"
        using ulp_pos [of y] by (simp only: mult_less_cancel_right) simp
      then have "v < 2 powi binade y" by (simp only: ulp_times(2) v)
      with vpos have "\<bar>v\<bar> < 2 powi binade y" by simp
      also have "\<dots> < 2 powi (- 1021)" unfolding bmin
        by (intro power_int_strict_increasing) simp_all
      finally have "binade v = - 1022" by (rule binade_small)
      with bmin show ?thesis by simp
    qed
    have "ulp y = 2 powi (binade v - 52)" by (simp only: ulp_def b)
    with v have "v = of_int m * 2 powi (binade v - 52)" by (simp only:)
    with vpos show ?thesis by (rule roundToDouble_fix)
  qed
  then show ?thesis by (simp add: v_def)
qed

lemma isDouble_roundToDouble: "isDouble (roundToDouble y)"
proof -
  consider "0 < y" | "y = 0" | "0 < - y" by linarith
  then show ?thesis
  proof cases
    case 1
    then show ?thesis by (simp add: isDouble_def isDouble_roundToDouble_pos)
  next
    case 2
    then show ?thesis by (simp add: isDouble_def roundToDouble_zero)
  next
    case 3
    from isDouble_roundToDouble_pos [OF this] show ?thesis
      by (simp add: isDouble_def roundToDouble_minus)
  qed
qed

lemma isDouble_doubleAdd: "isDouble (doubleAdd x y)"
  by (simp add: doubleAdd_def isDouble_roundToDouble)

lemma isDouble_grid:
  assumes "isDouble c"
  shows "\<exists>k::int. c = of_int k * 2 powi (- 1074)"
proof -
  define d :: real where "d = 2 powi (- 1074)"
  define n where "n = nat (binade c + 1022)"
  have "- 1022 \<le> binade c" by (simp add: binade_def)
  then have "binade c - 52 = int n + (- 1074)" by (simp add: n_def)
  then have "ulp c = 2 powi (int n + (- 1074))" by (simp only: ulp_def)
  also have "\<dots> = 2 powi int n * 2 powi (- 1074)" by (subst power_int_add) simp_all
  also have "\<dots> = of_int (2 ^ n) * d" by (simp only: d_def) simp
  finally have u: "ulp c = of_int (2 ^ n) * d" .
  define m where "m = roundHalfEven (\<bar>c\<bar> / ulp c)"
  from assms have c: "c = sgn c * (of_int m * ulp c)"
    by (simp add: isDouble_def roundToDouble_def m_def)
  consider "0 < c" | "c = 0" | "c < 0" by linarith
  then have "\<exists>k::int. c = of_int k * d"
  proof cases
    case 1
    with c have "c = of_int m * (of_int (2 ^ n) * d)" by (simp only: u) simp
    then have "c = of_int (m * 2 ^ n) * d" by simp
    then show ?thesis ..
  next
    case 2
    then have "c = of_int 0 * d" by simp
    then show ?thesis ..
  next
    case 3
    with c have "c = - (of_int m * (of_int (2 ^ n) * d))" by (simp only: u) simp
    then have "c = of_int (- (m * 2 ^ n)) * d" by simp
    then show ?thesis ..
  qed
  then show ?thesis by (simp only: d_def)
qed

lemma isDouble_gap:
  assumes "isDouble a" and "isDouble b" and "a < b"
  shows "a + 2 powi (- 1074) \<le> b"
proof -
  define d :: real where "d = 2 powi (- 1074)"
  from isDouble_grid [OF assms(1)] obtain k where a: "a = of_int k * d"
    unfolding d_def ..
  from isDouble_grid [OF assms(2)] obtain l where b: "b = of_int l * d"
    unfolding d_def ..
  have pos: "0 < d" by (simp add: d_def)
  from assms(3) have "real_of_int k * d < real_of_int l * d"
    by (simp only: a b)
  with pos have "real_of_int k < real_of_int l" by (simp add: mult_less_cancel_right)
  then have "k + 1 \<le> l" by simp
  then have "real_of_int (k + 1) \<le> real_of_int l" by (simp only: of_int_le_iff)
  with pos have "real_of_int (k + 1) * d \<le> real_of_int l * d"
    by (simp add: mult_le_cancel_right)
  then have "a + d \<le> b" by (simp only: a b) (simp add: algebra_simps)
  then show ?thesis by (simp only: d_def)
qed

text \<open>
  Concrete additions. A unit step below \<open>2^52\<close> is never absorbed; at \<open>10^16\<close>, where
  the doubles are 2 apart, it is. The doubles nearest to 0.1 and to 0.2 add up to the
  double nearest to 0.30000000000000004, above their exact sum.
\<close>

lemma doubleAdd_one_progress:
  assumes "0 \<le> c" and "c < 2 ^ 52"
  shows "c < doubleAdd c 1"
proof -
  define k where "k = \<lfloor>c\<rfloor>"
  have k: "of_int k \<le> c" "c < of_int (k + 1)" by (simp_all add: k_def)
  from assms(1) have k0: "0 \<le> k" by (simp add: k_def)
  from assms(2) have "\<lfloor>c\<rfloor> < 2 ^ 52" by (simp add: floor_less_iff)
  with k0 have "\<bar>k + 1\<bar> < 2 ^ 53" by (simp add: k_def)
  from roundToDouble_int [OF this] have r: "roundToDouble (of_int (k + 1)) = of_int (k + 1)" .
  from k(1) have "of_int (k + 1) \<le> c + 1" by simp
  from roundToDouble_mono [OF this] r have "of_int (k + 1) \<le> doubleAdd c 1"
    by (simp only: doubleAdd_def)
  with k(2) show ?thesis by linarith
qed

lemma doubleAdd_small_ints:
  "doubleAdd 0 1 = 1" "doubleAdd 1 1 = 2" "doubleAdd 2 1 = 3" "doubleAdd 3 1 = 4"
  "doubleAdd 4 1 = 5" "doubleAdd 0 2 = 2" "doubleAdd 2 2 = 4" "doubleAdd 4 2 = 6"
  by (simp_all add: doubleAdd_def roundToDouble_Ints)

lemma isDouble_small_ints:
  "isDouble 0" "isDouble 1" "isDouble 2" "isDouble 3" "isDouble 5"
  by (simp_all add: isDouble_def roundToDouble_Ints)

lemma doubleAdd_absorbed_example: "doubleAdd 10000000000000000 1 = 10000000000000000"
  unfolding doubleAdd_def
  by (subst roundToDouble_binade [of 53]) (simp_all add: roundHalfEven_def)

lemma isDouble_large_examples:
  "isDouble 10000000000000000" "isDouble 10000000000000004"
  unfolding isDouble_def
  by (subst roundToDouble_binade [of 53]; simp add: roundHalfEven_def)+

lemma example_tenths:
  "isDouble (3602879701896397 / 36028797018963968)"
  "isDouble (1351079888211149 / 4503599627370496)"
  "doubleAdd (3602879701896397 / 36028797018963968) (3602879701896397 / 18014398509481984)
     = 1351079888211149 / 4503599627370496"
proof -
  show "isDouble (3602879701896397 / 36028797018963968)"
    unfolding isDouble_def
    by (subst roundToDouble_binade [of "- 4"]) (simp_all add: roundHalfEven_def)
  show "isDouble (1351079888211149 / 4503599627370496)"
    unfolding isDouble_def
    by (subst roundToDouble_binade [of "- 2"]) (simp_all add: roundHalfEven_def)
  show "doubleAdd (3602879701896397 / 36028797018963968)
      (3602879701896397 / 18014398509481984) = 1351079888211149 / 4503599627370496"
    unfolding doubleAdd_def
    by (subst roundToDouble_binade [of "- 2"]) (simp_all add: roundHalfEven_def)
qed

section \<open>The output loop\<close>

lemma outputLoop_step:
  assumes "cur < ts ! (length ts - 1)"
    and "extendIndex ts (findNearestLowerNeighbour ts (doubleAdd cur dt)) = Inr j"
  shows "outputLoop ts H w P D dt cur h =
           outputLoop ts H w P D dt (doubleAdd cur dt)
             (h(ts ! j \<mapsto> covarianceUpTo H w P D j))"
  using assms by (subst outputLoop.simps) simp

lemma outputLoop_stop:
  assumes "\<not> cur < ts ! (length ts - 1)"
  shows "outputLoop ts H w P D dt cur h = Some (Inr h)"
  using assms by (subst outputLoop.simps) simp

lemma queryTime_Suc:
  "queryTime dt cur (Suc n) = doubleAdd (queryTime dt cur n) dt"
  by (induction n arbitrary: cur) simp_all

text \<open>
  Total correctness: when the query time reaches the last time after \<open>n\<close> additions,
  the loop returns a history, and an invariant of the loop body holds of it.
\<close>

lemma outputLoop_rule:
  assumes ne: "ts \<noteq> []"
    and step: "\<And>c g j. I c g \<Longrightarrow> c < ts ! (length ts - 1) \<Longrightarrow>
        extendIndex ts (findNearestLowerNeighbour ts (doubleAdd c dt)) = Inr j \<Longrightarrow>
        I (doubleAdd c dt) (g(ts ! j \<mapsto> covarianceUpTo H w P D j))"
  shows "ts ! (length ts - 1) \<le> queryTime dt cur n \<Longrightarrow> I cur h \<Longrightarrow>
         \<exists>c' h'. outputLoop ts H w P D dt cur h = Some (Inr h')
           \<and> ts ! (length ts - 1) \<le> c' \<and> I c' h'"
proof (induction n arbitrary: cur h)
  case 0
  then have "\<not> cur < ts ! (length ts - 1)" by simp
  from outputLoop_stop [OF this] 0 show ?case
    by (intro exI [of _ cur] exI [of _ h]) simp
next
  case (Suc n)
  show ?case
  proof (cases "cur < ts ! (length ts - 1)")
    case False
    from outputLoop_stop [OF False] False Suc.prems(2) show ?thesis
      by (intro exI [of _ cur] exI [of _ h]) simp
  next
    case True
    from extendIndex_result [OF findNearestLowerNeighbour_less [OF ne]]
    obtain j where j: "extendIndex ts (findNearestLowerNeighbour ts (doubleAdd cur dt)) = Inr j"
      by blast
    from Suc.prems(1) have "ts ! (length ts - 1) \<le> queryTime dt (doubleAdd cur dt) n"
      by simp
    from Suc.IH [OF this step [OF Suc.prems(2) True j]]
    show ?thesis unfolding outputLoop_step [OF True j] .
  qed
qed

text \<open>A run that returns has reached the last time after finitely many additions.\<close>

lemma outputLoop_reaches:
  assumes run: "outputLoop ts H w P D dt cur h = Some r" and ne: "ts \<noteq> []"
  shows "\<exists>n. ts ! (length ts - 1) \<le> queryTime dt cur n"
proof -
  have "ts \<noteq> [] \<longrightarrow> (\<exists>n. ts ! (length ts - 1) \<le> queryTime dt cur n)"
  proof (rule outputLoop.raw_induct
      [where P = "\<lambda>ts H w P D dt cur h r.
          ts \<noteq> [] \<longrightarrow> (\<exists>n. ts ! (length ts - 1) \<le> queryTime dt cur n)", OF _ run])
    fix f :: "real list \<Rightarrow> matrix \<Rightarrow> real list \<Rightarrow> matrix \<Rightarrow> matrix \<Rightarrow> real \<Rightarrow> real
        \<Rightarrow> (real \<rightharpoonup> eigenResult) \<Rightarrow> (error + (real \<rightharpoonup> eigenResult)) option"
    fix ts H w P D dt cur h r
    assume IH: "\<And>ts H w P D dt cur h r. f ts H w P D dt cur h = Some r
        \<Longrightarrow> ts \<noteq> [] \<longrightarrow> (\<exists>n. ts ! (length ts - 1) \<le> queryTime dt cur n)"
    assume eq: "(if cur < ts ! (length ts - 1)
        then case extendIndex ts (findNearestLowerNeighbour ts (doubleAdd cur dt)) of
             Inl e \<Rightarrow> Some (Inl e)
           | Inr currentIndex \<Rightarrow> f ts H w P D dt (doubleAdd cur dt)
               (h(ts ! currentIndex \<mapsto> covarianceUpTo H w P D currentIndex))
        else Some (Inr h)) = Some r"
    show "ts \<noteq> [] \<longrightarrow> (\<exists>n. ts ! (length ts - 1) \<le> queryTime dt cur n)"
    proof
      assume ne: "ts \<noteq> []"
      from extendIndex_result [OF findNearestLowerNeighbour_less [OF ne]]
      obtain j where j: "extendIndex ts (findNearestLowerNeighbour ts (doubleAdd cur dt)) = Inr j"
        by blast
      show "\<exists>n. ts ! (length ts - 1) \<le> queryTime dt cur n"
      proof (cases "cur < ts ! (length ts - 1)")
        case True
        with eq j have "f ts H w P D dt (doubleAdd cur dt)
            (h(ts ! j \<mapsto> covarianceUpTo H w P D j)) = Some r" by simp
        from IH [OF this] ne obtain n
          where "ts ! (length ts - 1) \<le> queryTime dt (doubleAdd cur dt) n" by blast
        then have "ts ! (length ts - 1) \<le> queryTime dt cur (Suc n)" by simp
        then show ?thesis ..
      next
        case False
        then have "ts ! (length ts - 1) \<le> queryTime dt cur 0" by simp
        then show ?thesis ..
      qed
    qed
  qed
  with ne show ?thesis by simp
qed

lemma outputLoop_no_error:
  assumes run: "outputLoop ts H w P D dt cur h = Some r" and ne: "ts \<noteq> []"
  shows "\<exists>m. r = Inr m"
proof -
  from outputLoop_reaches [OF run ne] obtain n
    where "ts ! (length ts - 1) \<le> queryTime dt cur n" ..
  from outputLoop_rule [where I = "\<lambda>c g. True" and H = H and w = w and P = P and D = D
      and h = h, OF ne _ this]
  obtain h' where "outputLoop ts H w P D dt cur h = Some (Inr h')" by auto
  with run show ?thesis by auto
qed

lemma outputLoop_never:
  assumes ne: "ts \<noteq> []" and never: "\<And>n. queryTime dt cur n < ts ! (length ts - 1)"
  shows "outputLoop ts H w P D dt cur h = None"
proof (rule ccontr)
  assume "outputLoop ts H w P D dt cur h \<noteq> None"
  then obtain r where "outputLoop ts H w P D dt cur h = Some r" by auto
  from outputLoop_reaches [OF this ne] never show False by (auto simp: not_le [symmetric])
qed

lemma queryTime_absorbed:
  "doubleAdd cur dt = cur \<Longrightarrow> queryTime dt cur n = cur"
  by (induction n) simp_all

lemma queryTime_nonpositive_step:
  assumes "isDouble cur" and "dt \<le> 0"
  shows "queryTime dt cur n \<le> cur"
proof (induction n)
  case 0
  show ?case by simp
next
  case (Suc n)
  from Suc assms(2) have "queryTime dt cur n + dt \<le> cur" by simp
  from doubleAdd_le [OF assms(1) this] show ?case by (simp only: queryTime_Suc)
qed

lemma queryTime_positive_step:
  assumes "isDouble cur" and "0 < dt"
  shows "cur \<le> queryTime dt cur n" and "doubleAdd cur dt \<le> queryTime dt cur (Suc n)"
proof -
  show low: "cur \<le> queryTime dt cur n" for n
  proof (induction n)
    case 0
    show ?case by simp
  next
    case (Suc n)
    from Suc assms(2) have "cur \<le> queryTime dt cur n + dt" by simp
    from doubleAdd_ge [OF assms(1) this] show ?case by (simp only: queryTime_Suc)
  qed
  from doubleAdd_mono [OF low [of n]] show "doubleAdd cur dt \<le> queryTime dt cur (Suc n)"
    by (simp only: queryTime_Suc)
qed

lemma isDouble_queryTime: "isDouble cur \<Longrightarrow> isDouble (queryTime dt cur n)"
  by (induction n arbitrary: cur) (simp_all add: isDouble_doubleAdd)

text \<open>
  A positive step that rounding never absorbs below the last time reaches the last time:
  each addition then moves the query time up by at least the finest spacing of doubles.
\<close>

lemma queryTime_reaches:
  assumes first: "isDouble cur"
    and progress: "\<And>c. isDouble c \<Longrightarrow> cur \<le> c \<Longrightarrow> c < final \<Longrightarrow> c < doubleAdd c dt"
  shows "\<exists>n. final \<le> queryTime dt cur n"
proof (rule ccontr)
  define d :: real where "d = 2 powi (- 1074)"
  have pos: "0 < d" by (simp add: d_def)
  assume "\<not> (\<exists>n. final \<le> queryTime dt cur n)"
  then have below: "queryTime dt cur n < final" for n by (simp add: not_le)
  have grow: "cur + of_nat n * d \<le> queryTime dt cur n" for n
  proof (induction n)
    case 0
    show ?case by simp
  next
    case (Suc n)
    from pos have "0 \<le> of_nat n * d" by simp
    with Suc have low: "cur \<le> queryTime dt cur n" by linarith
    have dbl: "isDouble (queryTime dt cur n)" by (rule isDouble_queryTime [OF first])
    from progress [OF dbl low below]
    have "queryTime dt cur n < queryTime dt cur (Suc n)" by (simp only: queryTime_Suc)
    from isDouble_gap [OF dbl isDouble_queryTime [OF first] this]
    have "queryTime dt cur n + d \<le> queryTime dt cur (Suc n)" by (simp only: d_def)
    moreover have "of_nat (Suc n) * d = of_nat n * d + d" by (simp add: algebra_simps)
    ultimately show ?case using Suc by linarith
  qed
  obtain n :: nat where n: "(final - cur) / d \<le> of_nat n"
    using real_arch_simple by blast
  with pos have "final - cur \<le> of_nat n * d"
    by (simp only: pos_divide_le_eq)
  with grow [of n] below [of n] show False by linarith
qed

section \<open>Sorting and the shape of the time-ordered inputs\<close>

lemma fold_update_upt:
  "k \<le> length xs \<Longrightarrow>
   fold (\<lambda>i ys. ys[i := f i]) [0..<k] xs = map f [0..<k] @ drop k xs"
proof (induction k)
  case 0
  then show ?case by simp
next
  case (Suc k)
  then have "k < length xs" by simp
  then have "(map f [0..<k] @ drop k xs)[k := f k] = map f [0..<k] @ f k # drop (Suc k) xs"
    by (simp add: list_update_append upd_conv_take_nth_drop Cons_nth_drop_Suc [symmetric])
  with Suc show ?case by simp
qed

lemma sortRowsLoop_fold:
  "rowList (sortRowsLoop order A is S) =
     fold (\<lambda>i ys. ys[i := rowList A ! (order ! i)]) is (rowList S)
   \<and> cols (sortRowsLoop order A is S) = cols S"
  by (induction "is" arbitrary: S) (simp_all add: setRow_def getRow_def)

lemma sortRowsLoop_rows:
  assumes "length order = rows A"
  shows "sortRowsLoop order A [0..<length order] (Zero (rows A) (cols A)) =
           Matrix (cols A) (map (\<lambda>i. rowList A ! (order ! i)) [0..<rows A])"
proof -
  let ?S = "sortRowsLoop order A [0..<length order] (Zero (rows A) (cols A))"
  have "rowList ?S = map (\<lambda>i. rowList A ! (order ! i)) [0..<rows A]"
    using assms fold_update_upt [of "rows A" "replicate (rows A) (replicate (cols A) 0)"
        "\<lambda>i. rowList A ! (order ! i)"]
    by (simp add: sortRowsLoop_fold Zero_def)
  moreover have "cols ?S = cols A"
    by (simp add: sortRowsLoop_fold Zero_def)
  ultimately show ?thesis by (cases ?S) simp
qed

lemma sortWeightsLoop_fold:
  "sortWeightsLoop order w is v = fold (\<lambda>i ys. ys[i := w ! (order ! i)]) is v"
  by (induction "is" arbitrary: v) simp_all

lemma timeOrderedDiagonalOfWeightMatrix_map:
  assumes "length order = length w"
  shows "timeOrderedDiagonalOfWeightMatrix order w = map (\<lambda>i. w ! (order ! i)) [0..<length w]"
  using assms fold_update_upt [of "length w" "replicate (length w) 0" "\<lambda>i. w ! (order ! i)"]
  by (simp add: timeOrderedDiagonalOfWeightMatrix_def sortWeightsLoop_fold)

lemma map_insort_key: "map f (insort_key f x xs) = insort (f x) (map f xs)"
  by (induction xs) simp_all

lemma map_sort_key: "map f (sort_key f xs) = sort (map f xs)"
  by (induction xs) (simp_all add: map_insort_key)

lemma sortedVector_sort:
  "snd (getSortOrderOfVectorAndSortedVector ts) = sort ts"
  by (simp add: getSortOrderOfVectorAndSortedVector_def Let_def map_sort_key map_nth)

lemma length_sortOrder:
  "length (fst (getSortOrderOfVectorAndSortedVector ts)) = length ts"
  by (simp add: getSortOrderOfVectorAndSortedVector_def Let_def)

lemma orderedTimeVectorOf_sort:
  "orderedTimeVectorOf sz md = sort (getConcatenatedTimeVector sz md)"
  by (simp add: orderedTimeVectorOf_def sortedVector_sort)

lemma getTimeOrderedInformationMatrix_eq:
  "getTimeOrderedInformationMatrix sz md A =
     (if length (getConcatenatedTimeVector sz md) \<noteq> rows A then Inl SizesIncompatible
      else Inr ((timeOrderedMatrixOf sz md A, orderedTimeVectorOf sz md), timeOrderOf sz md))"
  by (simp add: getTimeOrderedInformationMatrix_def Let_def timeOrderedMatrixOf_def
      orderedTimeVectorOf_def timeOrderOf_def length_sortOrder)

lemma orderedTimeVectorOf_Nil:
  "orderedTimeVectorOf sz md = [] \<longleftrightarrow> getConcatenatedTimeVector sz md = []"
proof -
  have "length (orderedTimeVectorOf sz md) = length (getConcatenatedTimeVector sz md)"
    by (simp add: orderedTimeVectorOf_sort)
  then show ?thesis by (metis length_0_conv)
qed

lemma calculate_valid:
  assumes "validInput sz md A nf w P"
  shows "calculateCovarianceMatrixAsFunctionOfTime sz md A nf dt w P =
           outputLoop (orderedTimeVectorOf sz md) (timeOrderedMatrixOf sz md A)
             (timeOrderedDiagonalOfWeightMatrix (timeOrderOf sz md) w) P (asDiagonal nf) dt
             (orderedTimeVectorOf sz md ! 0) Map.empty"
proof -
  from assms have ne: "orderedTimeVectorOf sz md \<noteq> []"
    by (simp add: validInput_def orderedTimeVectorOf_Nil)
  from assms have chk: "checkInput A nf w P = None"
    and len: "length (getConcatenatedTimeVector sz md) = rows A"
    by (simp_all add: validInput_def)
  show ?thesis
    unfolding calculateCovarianceMatrixAsFunctionOfTime_def chk
      getTimeOrderedInformationMatrix_eq len
    using ne by (simp add: Let_def)
qed

lemma checkInput_None:
  "checkInput A nf w P = None \<longleftrightarrow>
     cols P = rows P \<and> cols A = cols P \<and> length nf = cols P \<and> rows A = length w"
  by (simp add: checkInput_def Let_def)

lemma checkInput_Some:
  "checkInput A nf w P = Some e \<Longrightarrow>
     e \<in> {AprioriCovarianceNotSquare, ParametersInconsistentWithInformationMatrix,
          ParametersInconsistentWithNormalizationFactors, WeightsInconsistentWithPartials}"
  by (auto simp: checkInput_def Let_def split: if_splits)

lemma calculate_checked:
  assumes "checkInput A nf w P = None"
  shows "calculateCovarianceMatrixAsFunctionOfTime sz md A nf dt w P =
     (if length (getConcatenatedTimeVector sz md) \<noteq> rows A then Some (Inl SizesIncompatible)
      else if getConcatenatedTimeVector sz md = [] then Some (Inl ReadOutsideVector)
      else outputLoop (orderedTimeVectorOf sz md) (timeOrderedMatrixOf sz md A)
             (timeOrderedDiagonalOfWeightMatrix (timeOrderOf sz md) w) P (asDiagonal nf) dt
             (orderedTimeVectorOf sz md ! 0) Map.empty)"
  unfolding calculateCovarianceMatrixAsFunctionOfTime_def assms
    getTimeOrderedInformationMatrix_eq
  by (simp add: Let_def orderedTimeVectorOf_Nil)

lemma calculate_no_shape_error:
  assumes "checkInput A nf w P = None"
    and "calculateCovarianceMatrixAsFunctionOfTime sz md A nf dt w P = Some (Inl e)"
  shows "e = SizesIncompatible \<or> e = ReadOutsideVector"
proof (cases "length (getConcatenatedTimeVector sz md) \<noteq> rows A
              \<or> getConcatenatedTimeVector sz md = []")
  case True
  with assms show ?thesis
    by (auto simp: calculate_checked split: if_splits)
next
  case False
  with assms have run: "outputLoop (orderedTimeVectorOf sz md) (timeOrderedMatrixOf sz md A)
      (timeOrderedDiagonalOfWeightMatrix (timeOrderOf sz md) w) P (asDiagonal nf) dt
      (orderedTimeVectorOf sz md ! 0) Map.empty = Some (Inl e)"
    by (simp add: calculate_checked)
  from False have "orderedTimeVectorOf sz md \<noteq> []"
    by (simp add: orderedTimeVectorOf_Nil)
  from outputLoop_no_error [OF run this] show ?thesis by simp
qed

subsection \<open>The shape checks\<close>

text \<open>
  C5. The four shape conditions are tested first, in the order of the source, and the
  error of the first one that fails is raised whatever the measurement data and the
  output time step are (so before any sorting or matrix arithmetic); the function
  raises one of these four errors exactly when one of the conditions fails.
\<close>

theorem calculateCovariance_shape_errors:
  "(checkInput A nf w P = Some e \<longrightarrow>
      calculateCovarianceMatrixAsFunctionOfTime getObservableSize measurementData A nf
        outputTimeStep w P = Some (Inl e))
   \<and> ((\<exists>e \<in> {AprioriCovarianceNotSquare, ParametersInconsistentWithInformationMatrix,
             ParametersInconsistentWithNormalizationFactors, WeightsInconsistentWithPartials}.
         calculateCovarianceMatrixAsFunctionOfTime getObservableSize measurementData A nf
           outputTimeStep w P = Some (Inl e))
        \<longleftrightarrow> \<not> (cols P = rows P \<and> cols A = cols P \<and> length nf = cols P
                 \<and> rows A = length w))"
proof (intro conjI impI iffI)
  assume "checkInput A nf w P = Some e"
  then show "calculateCovarianceMatrixAsFunctionOfTime getObservableSize measurementData A nf
        outputTimeStep w P = Some (Inl e)"
    by (simp add: calculateCovarianceMatrixAsFunctionOfTime_def)
next
  assume "\<exists>e \<in> {AprioriCovarianceNotSquare, ParametersInconsistentWithInformationMatrix,
             ParametersInconsistentWithNormalizationFactors, WeightsInconsistentWithPartials}.
         calculateCovarianceMatrixAsFunctionOfTime getObservableSize measurementData A nf
           outputTimeStep w P = Some (Inl e)"
  then obtain e where e: "e \<in> {AprioriCovarianceNotSquare,
      ParametersInconsistentWithInformationMatrix,
      ParametersInconsistentWithNormalizationFactors, WeightsInconsistentWithPartials}"
    and run: "calculateCovarianceMatrixAsFunctionOfTime getObservableSize measurementData A nf
           outputTimeStep w P = Some (Inl e)" by blast
  show "\<not> (cols P = rows P \<and> cols A = cols P \<and> length nf = cols P \<and> rows A = length w)"
  proof
    assume "cols P = rows P \<and> cols A = cols P \<and> length nf = cols P \<and> rows A = length w"
    then have "checkInput A nf w P = None" by (simp add: checkInput_None)
    from calculate_no_shape_error [OF this run] e show False by auto
  qed
next
  assume "\<not> (cols P = rows P \<and> cols A = cols P \<and> length nf = cols P \<and> rows A = length w)"
  then have "checkInput A nf w P \<noteq> None" by (simp add: checkInput_None)
  then obtain e' where e': "checkInput A nf w P = Some e'" by auto
  then have "calculateCovarianceMatrixAsFunctionOfTime getObservableSize measurementData A nf
        outputTimeStep w P = Some (Inl e')"
    by (simp add: calculateCovarianceMatrixAsFunctionOfTime_def)
  with checkInput_Some [OF e']
  show "\<exists>e \<in> {AprioriCovarianceNotSquare, ParametersInconsistentWithInformationMatrix,
             ParametersInconsistentWithNormalizationFactors, WeightsInconsistentWithPartials}.
         calculateCovarianceMatrixAsFunctionOfTime getObservableSize measurementData A nf
           outputTimeStep w P = Some (Inl e)" by blast
qed

text \<open>
  A 2 x 1 information matrix with three weights: the last check fails, although the
  time step is negative and the measurement map is empty.
\<close>

theorem calculateCovariance_shape_errors_witness:
  "checkInput (Matrix 1 [[1], [2]]) [1] [1, 1, 1] (Matrix 1 [[1]])
     = Some WeightsInconsistentWithPartials
   \<and> calculateCovarianceMatrixAsFunctionOfTime (\<lambda>u::unit. 1)
       ([] :: (unit, unit, unit) PodInputType)
       (Matrix 1 [[1], [2]]) [1] (- 1) [1, 1, 1] (Matrix 1 [[1]])
     = Some (Inl WeightsInconsistentWithPartials)"
  using calculateCovariance_shape_errors [of "Matrix 1 [[1], [2]]" "[1]" "[1, 1, 1]"
      "Matrix 1 [[1]]" WeightsInconsistentWithPartials "\<lambda>u::unit. 1"
      "[] :: (unit, unit, unit) PodInputType" "- 1"]
  by (simp add: checkInput_def rows_def)

subsection \<open>An empty observation set\<close>

text \<open>
  C8. When the shape checks pass, the information matrix has no row and the measurement
  map holds no time tag, line 232 reads element 0 of the empty ordered time vector: the
  function has no check for an empty observation set before that read.
\<close>

theorem calculateCovariance_empty_observations:
  assumes "checkInput A nf w P = None"
    and "getConcatenatedTimeVector getObservableSize measurementData = []"
    and "rows A = 0"
  shows "calculateCovarianceMatrixAsFunctionOfTime getObservableSize measurementData A nf
           outputTimeStep w P = Some (Inl ReadOutsideVector)"
  using assms by (simp add: calculate_checked)

theorem calculateCovariance_empty_observations_witness:
  "checkInput (Matrix 1 []) [1] [] (Matrix 1 [[1]]) = None
   \<and> getConcatenatedTimeVector (\<lambda>u::unit. 1) ([] :: (unit, unit, unit) PodInputType) = []
   \<and> rows (Matrix 1 []) = 0
   \<and> calculateCovarianceMatrixAsFunctionOfTime (\<lambda>u::unit. 1)
        ([] :: (unit, unit, unit) PodInputType) (Matrix 1 []) [1] 1 [] (Matrix 1 [[1]])
      = Some (Inl ReadOutsideVector)"
  using calculateCovariance_empty_observations [of "Matrix 1 []" "[1]" "[]" "Matrix 1 [[1]]"
      "\<lambda>u::unit. 1" "[] :: (unit, unit, unit) PodInputType" 1]
  by (simp add: checkInput_def rows_def getConcatenatedTimeVector_def)

subsection \<open>The branch of line 257\<close>

text \<open>
  C10. Whatever index the lookup returns, the loop over equal consecutive times leaves
  an index of at most \<open>N - 1\<close> (or throws from \<^verbatim>\<open>vector::at\<close>), so the test of line
  257 never succeeds: lines 245 to 260 never raise "output time not found", and neither
  does the function. From an index inside the vector the loop returns an index inside
  the vector. This holds for every time vector, non-decreasing or not.
\<close>

theorem outputTimeNotFound_unreachable:
  "(\<forall>j. tieLoop orderedTimeVector currentIndex = Inr j \<longrightarrow> j \<le> length orderedTimeVector - 1)
   \<and> extendIndex orderedTimeVector currentIndex \<noteq> Inl OutputTimeNotFound
   \<and> (currentIndex < length orderedTimeVector \<longrightarrow>
        (\<exists>j. extendIndex orderedTimeVector currentIndex = Inr j
             \<and> j \<le> length orderedTimeVector - 1))
   \<and> calculateCovarianceMatrixAsFunctionOfTime getObservableSize measurementData A nf
        outputTimeStep w P \<noteq> Some (Inl OutputTimeNotFound)"
proof (intro conjI allI impI)
  fix j
  assume "tieLoop orderedTimeVector currentIndex = Inr j"
  from tieLoop_bound [OF this] show "j \<le> length orderedTimeVector - 1" by simp
next
  show "extendIndex orderedTimeVector currentIndex \<noteq> Inl OutputTimeNotFound"
    by (rule extendIndex_found)
next
  assume "currentIndex < length orderedTimeVector"
  from extendIndex_result [OF this]
  obtain j where "extendIndex orderedTimeVector currentIndex = Inr j"
    and "j < length orderedTimeVector" by blast
  then show "\<exists>j. extendIndex orderedTimeVector currentIndex = Inr j
      \<and> j \<le> length orderedTimeVector - 1"
    by (intro exI [of _ j]) simp
next
  show "calculateCovarianceMatrixAsFunctionOfTime getObservableSize measurementData A nf
        outputTimeStep w P \<noteq> Some (Inl OutputTimeNotFound)"
  proof (cases "checkInput A nf w P")
    case None
    show ?thesis
    proof
      assume "calculateCovarianceMatrixAsFunctionOfTime getObservableSize measurementData A nf
        outputTimeStep w P = Some (Inl OutputTimeNotFound)"
      from calculate_no_shape_error [OF None this] show False by simp
    qed
  next
    case (Some e)
    with checkInput_Some [OF Some] show ?thesis
      by (auto simp: calculateCovarianceMatrixAsFunctionOfTime_def)
  qed
qed

text \<open>
  Times 0, 1, 1, 3 and the index 1 of the first of the two equal times: the loop stops
  at index 2, the last of the run.
\<close>

theorem outputTimeNotFound_unreachable_witness:
  "(1::nat) < length [0, 1, 1, 3 :: real]
   \<and> tieLoop [0, 1, 1, 3] 1 = Inr 2
   \<and> extendIndex [0, 1, 1, 3] 1 = Inr 2
   \<and> (2::nat) \<le> length [0, 1, 1, 3 :: real] - 1"
proof -
  have t: "tieLoop [0, 1, 1, 3] 1 = Inr 2"
    by (subst tieLoop.simps, simp, subst tieLoop.simps, simp)
  from outputTimeNotFound_unreachable [of "[0, 1, 1, 3]" 1] t
  show ?thesis by (simp add: extendIndex_def)
qed

lemma timeOrderOf_permutation:
  "length (timeOrderOf sz md) = length (getConcatenatedTimeVector sz md)
   \<and> distinct (timeOrderOf sz md)
   \<and> set (timeOrderOf sz md) = {0..<length (getConcatenatedTimeVector sz md)}"
  by (simp add: timeOrderOf_def getSortOrderOfVectorAndSortedVector_def Let_def)

lemma orderedTimeVectorOf_map:
  "orderedTimeVectorOf sz md =
     map (\<lambda>i. getConcatenatedTimeVector sz md ! i) (timeOrderOf sz md)"
  by (simp add: orderedTimeVectorOf_def timeOrderOf_def
      getSortOrderOfVectorAndSortedVector_def Let_def)

lemma timeOrderedMatrixOf_rows:
  assumes "length (getConcatenatedTimeVector sz md) = rows A"
  shows "timeOrderedMatrixOf sz md A =
           Matrix (cols A) (map (\<lambda>i. rowList A ! (timeOrderOf sz md ! i)) [0..<rows A])"
  unfolding timeOrderedMatrixOf_def
  by (rule sortRowsLoop_rows) (simp add: timeOrderOf_permutation assms)

subsection \<open>Rows in time order\<close>

text \<open>
  C7. getTimeOrderedInformationMatrix throws the size error exactly when the length of
  the sort permutation differs from the row count of the information matrix. Otherwise
  it returns a matrix of the same shape whose row \<open>i\<close> is row \<open>timeOrder[ i ]\<close> of the
  input, for every \<open>i\<close>, together with the sorted times, which are non-decreasing and
  are the concatenated times read through the permutation; the permutation holds every
  index below the row count once.
\<close>

theorem getTimeOrderedInformationMatrix_reindexes:
  "(getTimeOrderedInformationMatrix getObservableSize measurementData A = Inl SizesIncompatible
      \<longleftrightarrow> length (timeOrderOf getObservableSize measurementData) \<noteq> rows A)
   \<and> (isl (getTimeOrderedInformationMatrix getObservableSize measurementData A)
      \<longleftrightarrow> length (timeOrderOf getObservableSize measurementData) \<noteq> rows A)
   \<and> (rows A = length (getConcatenatedTimeVector getObservableSize measurementData) \<longrightarrow>
       (\<exists>sortedMatrix.
          getTimeOrderedInformationMatrix getObservableSize measurementData A =
            Inr ((sortedMatrix, orderedTimeVectorOf getObservableSize measurementData),
                 timeOrderOf getObservableSize measurementData)
          \<and> rows sortedMatrix = rows A \<and> cols sortedMatrix = cols A
          \<and> (\<forall>i < rows A. getRow sortedMatrix i =
                getRow A (timeOrderOf getObservableSize measurementData ! i))
          \<and> sorted (orderedTimeVectorOf getObservableSize measurementData)
          \<and> orderedTimeVectorOf getObservableSize measurementData =
              map (\<lambda>i. getConcatenatedTimeVector getObservableSize measurementData ! i)
                (timeOrderOf getObservableSize measurementData)
          \<and> distinct (timeOrderOf getObservableSize measurementData)
          \<and> set (timeOrderOf getObservableSize measurementData) = {0..<rows A}))"
proof (intro conjI impI)
  show "getTimeOrderedInformationMatrix getObservableSize measurementData A
          = Inl SizesIncompatible
      \<longleftrightarrow> length (timeOrderOf getObservableSize measurementData) \<noteq> rows A"
    by (simp add: getTimeOrderedInformationMatrix_eq timeOrderOf_permutation)
next
  show "isl (getTimeOrderedInformationMatrix getObservableSize measurementData A)
      \<longleftrightarrow> length (timeOrderOf getObservableSize measurementData) \<noteq> rows A"
    by (simp add: getTimeOrderedInformationMatrix_eq timeOrderOf_permutation)
next
  let ?order = "timeOrderOf getObservableSize measurementData"
  let ?S = "Matrix (cols A) (map (\<lambda>i. rowList A ! (?order ! i)) [0..<rows A])"
  assume len: "rows A = length (getConcatenatedTimeVector getObservableSize measurementData)"
  then have S: "timeOrderedMatrixOf getObservableSize measurementData A = ?S"
    by (simp add: timeOrderedMatrixOf_rows)
  have "getTimeOrderedInformationMatrix getObservableSize measurementData A =
      Inr ((?S, orderedTimeVectorOf getObservableSize measurementData), ?order)"
    using len by (simp add: getTimeOrderedInformationMatrix_eq S)
  moreover have "rows ?S = rows A" "cols ?S = cols A"
    by (simp_all add: rows_def)
  moreover have "\<forall>i < rows A. getRow ?S i = getRow A (?order ! i)"
    by (simp add: getRow_def)
  moreover have "sorted (orderedTimeVectorOf getObservableSize measurementData)"
    by (simp add: orderedTimeVectorOf_sort)
  moreover note orderedTimeVectorOf_map [of getObservableSize measurementData]
  moreover have "distinct ?order" "set ?order = {0..<rows A}"
    using len by (simp_all add: timeOrderOf_permutation)
  ultimately show "\<exists>sortedMatrix.
          getTimeOrderedInformationMatrix getObservableSize measurementData A =
            Inr ((sortedMatrix, orderedTimeVectorOf getObservableSize measurementData),
                 timeOrderOf getObservableSize measurementData)
          \<and> rows sortedMatrix = rows A \<and> cols sortedMatrix = cols A
          \<and> (\<forall>i < rows A. getRow sortedMatrix i =
                getRow A (timeOrderOf getObservableSize measurementData ! i))
          \<and> sorted (orderedTimeVectorOf getObservableSize measurementData)
          \<and> orderedTimeVectorOf getObservableSize measurementData =
              map (\<lambda>i. getConcatenatedTimeVector getObservableSize measurementData ! i)
                (timeOrderOf getObservableSize measurementData)
          \<and> distinct (timeOrderOf getObservableSize measurementData)
          \<and> set (timeOrderOf getObservableSize measurementData) = {0..<rows A}"
    by (intro exI [of _ ?S]) simp
qed

text \<open>
  Three range observations at times 3, 1, 1 with the rows (1, 2), (3, 4), (5, 6): the
  stable order is 1, 2, 0. With a 2-row matrix the sizes are incompatible.
\<close>

theorem getTimeOrderedInformationMatrix_reindexes_witness:
  "timeOrderOf (\<lambda>u::unit. 1) [((), [((), ([7, 8, 9], ([3, 1, 1], ())))])] = [1, 2, 0]
   \<and> getTimeOrderedInformationMatrix (\<lambda>u::unit. 1)
        [((), [((), ([7, 8, 9], ([3, 1, 1], ())))])] (Matrix 2 [[1, 2], [3, 4], [5, 6]])
      = Inr ((Matrix 2 [[3, 4], [5, 6], [1, 2]], [1, 1, 3]), [1, 2, 0])
   \<and> getTimeOrderedInformationMatrix (\<lambda>u::unit. 1)
        [((), [((), ([7, 8, 9], ([3, 1, 1], ())))])] (Matrix 2 [[1, 2], [3, 4]])
      = Inl SizesIncompatible"
proof -
  have ct: "getConcatenatedTimeVector (\<lambda>u::unit. 1)
      [((), [((), ([7, 8, 9], ([3, 1, 1], ())))])] = [3, 1, 1]"
    by (simp add: getConcatenatedTimeVector_def currentTimesList_def)
  have order: "timeOrderOf (\<lambda>u::unit. 1) [((), [((), ([7, 8, 9], ([3, 1, 1], ())))])]
      = [1, 2, 0]"
    by (simp add: timeOrderOf_def ct getSortOrderOfVectorAndSortedVector_def
        upt_rec [of 0] upt_rec [of 1] upt_rec [of 2])
  have times: "orderedTimeVectorOf (\<lambda>u::unit. 1) [((), [((), ([7, 8, 9], ([3, 1, 1], ())))])]
      = [1, 1, 3]"
    by (simp add: orderedTimeVectorOf_map order ct)
  from getTimeOrderedInformationMatrix_reindexes [of "\<lambda>u::unit. 1"
      "[((), [((), ([7, 8, 9], ([3, 1, 1], ())))])]" "Matrix 2 [[1, 2], [3, 4], [5, 6]]"]
  obtain S where S: "getTimeOrderedInformationMatrix (\<lambda>u::unit. 1)
        [((), [((), ([7, 8, 9], ([3, 1, 1], ())))])] (Matrix 2 [[1, 2], [3, 4], [5, 6]])
      = Inr ((S, [1, 1, 3]), [1, 2, 0])"
    and shape: "rows S = 3" "cols S = 2"
    and row: "\<forall>i < 3. getRow S i = getRow (Matrix 2 [[1, 2], [3, 4], [5, 6]]) ([1, 2, 0] ! i)"
    by (auto simp: ct order times rows_def)
  from row have "getRow S 0 = [3, 4]" "getRow S 1 = [5, 6]" "getRow S 2 = [1, 2]"
    by (simp_all add: getRow_def)
  with shape have "S = Matrix 2 [[3, 4], [5, 6], [1, 2]]"
    by (cases S) (auto simp: rows_def getRow_def length_Suc_conv eval_nat_numeral)
  moreover from getTimeOrderedInformationMatrix_reindexes [of "\<lambda>u::unit. 1"
      "[((), [((), ([7, 8, 9], ([3, 1, 1], ())))])]" "Matrix 2 [[1, 2], [3, 4]]"]
  have "getTimeOrderedInformationMatrix (\<lambda>u::unit. 1)
        [((), [((), ([7, 8, 9], ([3, 1, 1], ())))])] (Matrix 2 [[1, 2], [3, 4]])
      = Inl SizesIncompatible"
    by (simp add: order rows_def)
  ultimately show ?thesis using S order by simp
qed

section \<open>The inverse on small matrices\<close>

text \<open>
  The cofactor formula on the sizes the examples use: for a 1 x 1 and a 2 x 2 matrix
  with a non-zero determinant, \<open>inverseM\<close> is defined and is a two-sided inverse.
\<close>

lemma inverseM_1x1:
  "a \<noteq> 0 \<Longrightarrow> inverseM (Matrix 1 [[a]]) = Defined (Matrix 1 [[1 / a]])"
  "inverseM (Matrix 1 [[0]]) = Undefined"
  by (simp_all add: inverseM_def rows_def minorOf_def dropIndex_def)

lemma inverseM_2x2:
  assumes "a * d - b * c \<noteq> 0"
  shows "inverseM (Matrix 2 [[a, b], [c, d]]) =
           Defined (Matrix 2 [[d / (a * d - b * c), - b / (a * d - b * c)],
                              [- c / (a * d - b * c), a / (a * d - b * c)]])"
  using assms
  by (simp add: inverseM_def rows_def minorOf_def dropIndex_def eval_nat_numeral)

lemma inverseM_2x2_inverse:
  assumes "a * d - b * c \<noteq> 0" and "inverseM (Matrix 2 [[a, b], [c, d]]) = Defined B"
  shows "multM (Matrix 2 [[a, b], [c, d]]) B = Matrix 2 [[1, 0], [0, 1]]"
    and "multM B (Matrix 2 [[a, b], [c, d]]) = Matrix 2 [[1, 0], [0, 1]]"
proof -
  from assms have B: "B = Matrix 2 [[d / (a * d - b * c), - b / (a * d - b * c)],
                              [- c / (a * d - b * c), a / (a * d - b * c)]]"
    by (simp add: inverseM_2x2)
  from assms(1) have 1: "a * d / (a * d - b * c) - b * c / (a * d - b * c) = 1"
    by (simp add: diff_divide_distrib [symmetric])
  show "multM (Matrix 2 [[a, b], [c, d]]) B = Matrix 2 [[1, 0], [0, 1]]"
    unfolding B using 1 by (simp add: multM_def eval_nat_numeral field_simps)
  show "multM B (Matrix 2 [[a, b], [c, d]]) = Matrix 2 [[1, 0], [0, 1]]"
    unfolding B using 1 by (simp add: multM_def eval_nat_numeral field_simps)
qed

lemma sorted_first_less_last:
  assumes "sorted (ts :: real list)" and "a \<in> set ts" and "b \<in> set ts" and "a \<noteq> b"
  shows "ts ! 0 < ts ! (length ts - 1)"
proof -
  from assms obtain i k where i: "i < length ts" "ts ! i = a"
    and k: "k < length ts" "ts ! k = b"
    by (auto simp: in_set_conv_nth)
  from assms(1) i have lo: "ts ! 0 \<le> a" "a \<le> ts ! (length ts - 1)"
    by (auto simp: sorted_iff_nth_mono)
  from assms(1) k have hi: "ts ! 0 \<le> b" "b \<le> ts ! (length ts - 1)"
    by (auto simp: sorted_iff_nth_mono)
  from lo hi \<open>a \<noteq> b\<close> show ?thesis by linarith
qed

section \<open>The entries of the covariance history\<close>

lemma outputLoop_entries:
  assumes ne: "ts \<noteq> []" and reach: "ts ! (length ts - 1) \<le> queryTime dt cur n"
  shows "\<exists>m. outputLoop ts H w P D dt cur Map.empty = Some (Inr m)
     \<and> (\<forall>t v. m t = Some v \<longrightarrow>
           (\<exists>j < length ts. t = ts ! j \<and> (j = length ts - 1 \<or> ts ! j \<noteq> ts ! (j + 1))
               \<and> v = covarianceUpTo H w P D j))"
proof -
  let ?I = "\<lambda>(c::real) g. \<forall>t v. g t = Some v \<longrightarrow>
           (\<exists>j < length ts. t = ts ! j \<and> (j = length ts - 1 \<or> ts ! j \<noteq> ts ! (j + 1))
               \<and> v = covarianceUpTo H w P D j)"
  have init: "?I cur Map.empty" by simp
  have "\<exists>c' m. outputLoop ts H w P D dt cur Map.empty = Some (Inr m)
      \<and> ts ! (length ts - 1) \<le> c' \<and> ?I c' m"
  proof (rule outputLoop_rule [where I = ?I, OF ne _ reach init])
    fix c :: real and g :: "real \<rightharpoonup> eigenResult" and j
    assume inv: "?I c g"
      and j: "extendIndex ts (findNearestLowerNeighbour ts (doubleAdd c dt)) = Inr j"
    from extendIndex_result [OF findNearestLowerNeighbour_less [OF ne], of "doubleAdd c dt"] j
    have "j < length ts" "j = length ts - 1 \<or> ts ! j \<noteq> ts ! (j + 1)" by auto
    with inv show "?I (doubleAdd c dt) (g(ts ! j \<mapsto> covarianceUpTo H w P D j))" by auto
  qed
  then show ?thesis by blast
qed

lemma calculate_entries:
  assumes valid: "validInput sz md A nf w P"
    and reach: "orderedTimeVectorOf sz md ! (length (orderedTimeVectorOf sz md) - 1)
        \<le> queryTime dt (orderedTimeVectorOf sz md ! 0) n"
  shows "\<exists>m. calculateCovarianceMatrixAsFunctionOfTime sz md A nf dt w P = Some (Inr m)
     \<and> (\<forall>t v. m t = Some v \<longrightarrow>
           (\<exists>j < length (orderedTimeVectorOf sz md).
               t = orderedTimeVectorOf sz md ! j
               \<and> (j = length (orderedTimeVectorOf sz md) - 1
                    \<or> orderedTimeVectorOf sz md ! j \<noteq> orderedTimeVectorOf sz md ! (j + 1))
               \<and> v = covarianceUpTo (timeOrderedMatrixOf sz md A)
                     (timeOrderedDiagonalOfWeightMatrix (timeOrderOf sz md) w) P
                     (asDiagonal nf) j))"
proof -
  from valid have ne: "orderedTimeVectorOf sz md \<noteq> []"
    by (simp add: validInput_def orderedTimeVectorOf_Nil)
  show ?thesis
    unfolding calculate_valid [OF valid] by (rule outputLoop_entries [OF ne reach])
qed

text \<open>
  For a valid input the function raises nothing, and it returns exactly when the query
  time reaches the last observation time.
\<close>

lemma calculate_returns:
  assumes valid: "validInput sz md A nf w P"
  shows "calculateCovarianceMatrixAsFunctionOfTime sz md A nf dt w P \<noteq> None
     \<longleftrightarrow> (\<exists>n. orderedTimeVectorOf sz md ! (length (orderedTimeVectorOf sz md) - 1)
              \<le> queryTime dt (orderedTimeVectorOf sz md ! 0) n)"
proof
  from valid have ne: "orderedTimeVectorOf sz md \<noteq> []"
    by (simp add: validInput_def orderedTimeVectorOf_Nil)
  assume "calculateCovarianceMatrixAsFunctionOfTime sz md A nf dt w P \<noteq> None"
  then obtain r where "calculateCovarianceMatrixAsFunctionOfTime sz md A nf dt w P = Some r"
    by auto
  then show "\<exists>n. orderedTimeVectorOf sz md ! (length (orderedTimeVectorOf sz md) - 1)
              \<le> queryTime dt (orderedTimeVectorOf sz md ! 0) n"
    unfolding calculate_valid [OF valid] by (rule outputLoop_reaches [OF _ ne])
next
  assume "\<exists>n. orderedTimeVectorOf sz md ! (length (orderedTimeVectorOf sz md) - 1)
              \<le> queryTime dt (orderedTimeVectorOf sz md ! 0) n"
  then obtain n where "orderedTimeVectorOf sz md ! (length (orderedTimeVectorOf sz md) - 1)
              \<le> queryTime dt (orderedTimeVectorOf sz md ! 0) n" ..
  from calculate_entries [OF valid this]
  show "calculateCovarianceMatrixAsFunctionOfTime sz md A nf dt w P \<noteq> None" by auto
qed


text \<open>When the concatenated times are already in order, sorting changes nothing.\<close>

lemma sorted_input:
  assumes "sorted (getConcatenatedTimeVector sz md)"
  shows "timeOrderOf sz md = [0..<length (getConcatenatedTimeVector sz md)]"
    and "orderedTimeVectorOf sz md = getConcatenatedTimeVector sz md"
proof -
  have "sorted (map (\<lambda>i. getConcatenatedTimeVector sz md ! i)
      [0..<length (getConcatenatedTimeVector sz md)])"
    using assms by (simp add: map_nth)
  then show order: "timeOrderOf sz md = [0..<length (getConcatenatedTimeVector sz md)]"
    by (simp add: timeOrderOf_def getSortOrderOfVectorAndSortedVector_def Let_def
        sort_key_id_if_sorted)
  show "orderedTimeVectorOf sz md = getConcatenatedTimeVector sz md"
    by (simp add: orderedTimeVectorOf_map order map_nth)
qed

lemma sorted_input_matrix:
  assumes "sorted (getConcatenatedTimeVector sz md)"
    and "length (getConcatenatedTimeVector sz md) = rows A"
  shows "timeOrderedMatrixOf sz md A = A"
proof -
  have "map (\<lambda>i. rowList A ! ([0..<rows A] ! i)) [0..<rows A] = map ((!) (rowList A)) [0..<rows A]"
    by (rule map_cong) simp_all
  then have "map (\<lambda>i. rowList A ! ([0..<rows A] ! i)) [0..<rows A] = rowList A"
    by (simp add: map_nth rows_def)
  with assms show ?thesis
    by (simp add: timeOrderedMatrixOf_rows sorted_input(1))
qed

lemma sorted_input_weights:
  assumes "sorted (getConcatenatedTimeVector sz md)"
    and "length (getConcatenatedTimeVector sz md) = length w"
  shows "timeOrderedDiagonalOfWeightMatrix (timeOrderOf sz md) w = w"
proof -
  have "map (\<lambda>i. w ! ([0..<length w] ! i)) [0..<length w] = map ((!) w) [0..<length w]"
    by (rule map_cong) simp_all
  then have "map (\<lambda>i. w ! ([0..<length w] ! i)) [0..<length w] = w"
    by (simp add: map_nth)
  with assms show ?thesis
    by (simp add: timeOrderedDiagonalOfWeightMatrix_map sorted_input(1))
qed

lemma calculate_sorted:
  assumes valid: "validInput sz md A nf w P"
    and ct: "getConcatenatedTimeVector sz md = ts" and "sorted ts"
  shows "calculateCovarianceMatrixAsFunctionOfTime sz md A nf dt w P =
           outputLoop ts A w P (asDiagonal nf) dt (ts ! 0) Map.empty"
proof -
  from valid ct have len: "length (getConcatenatedTimeVector sz md) = rows A"
    "length (getConcatenatedTimeVector sz md) = length w"
    by (simp_all add: validInput_def checkInput_None)
  from assms have s: "sorted (getConcatenatedTimeVector sz md)" by simp
  show ?thesis
    unfolding calculate_valid [OF valid] sorted_input_matrix [OF s len(1)]
      sorted_input_weights [OF s len(2)] sorted_input(2) [OF s] ct ..
qed

lemmas matrix_defs = rows_def topRows_def segment0_def asDiagonal_def transposeM_def
  addM_def multM_def inverseM_def multR_def dropIndex_def minorOf_def
  calculateInverseOfUpdatedCovarianceMatrix_def covarianceUpTo_def

subsection \<open>Termination of the output loop\<close>

text \<open>
  C9, as the code has it. For every valid input whose observation times are doubles,
  two of them distinct: the function returns exactly when the query time, after
  finitely many rounded additions of the output time step to the earliest time, reaches
  the last observation time, and then it returns a covariance history. It never returns
  when the step is zero or negative: no check rejects such a step. A positive step does
  not guarantee a return, since line 240 adds doubles and a small step is absorbed; the
  function does return for a positive step that no query time below the last observation
  time absorbs.
\<close>

theorem calculateCovariance_termination:
  assumes valid: "validInput getObservableSize measurementData A nf w P"
    and distinct: "\<exists>a \<in> set (getConcatenatedTimeVector getObservableSize measurementData).
        \<exists>b \<in> set (getConcatenatedTimeVector getObservableSize measurementData). a \<noteq> b"
    and doubles: "\<forall>t \<in> set (getConcatenatedTimeVector getObservableSize measurementData).
        isDouble t"
  shows "((\<exists>history. calculateCovarianceMatrixAsFunctionOfTime getObservableSize
              measurementData A nf outputTimeStep w P = Some (Inr history))
          \<longleftrightarrow> (\<exists>n. orderedTimeVectorOf getObservableSize measurementData !
                     (length (orderedTimeVectorOf getObservableSize measurementData) - 1)
                   \<le> queryTime outputTimeStep
                       (orderedTimeVectorOf getObservableSize measurementData ! 0) n))
       \<and> (calculateCovarianceMatrixAsFunctionOfTime getObservableSize
              measurementData A nf outputTimeStep w P = None
          \<longleftrightarrow> (\<forall>n. queryTime outputTimeStep
                       (orderedTimeVectorOf getObservableSize measurementData ! 0) n
                   < orderedTimeVectorOf getObservableSize measurementData !
                     (length (orderedTimeVectorOf getObservableSize measurementData) - 1)))
       \<and> (outputTimeStep \<le> 0 \<longrightarrow>
           calculateCovarianceMatrixAsFunctionOfTime getObservableSize
              measurementData A nf outputTimeStep w P = None)
       \<and> (0 < outputTimeStep
           \<and> (\<forall>c. isDouble c
                 \<and> orderedTimeVectorOf getObservableSize measurementData ! 0 \<le> c
                 \<and> c < orderedTimeVectorOf getObservableSize measurementData !
                     (length (orderedTimeVectorOf getObservableSize measurementData) - 1)
                 \<longrightarrow> c < doubleAdd c outputTimeStep)
           \<longrightarrow> (\<exists>history. calculateCovarianceMatrixAsFunctionOfTime getObservableSize
                  measurementData A nf outputTimeStep w P = Some (Inr history)))"
proof -
  let ?ts = "orderedTimeVectorOf getObservableSize measurementData"
  let ?run = "calculateCovarianceMatrixAsFunctionOfTime getObservableSize
              measurementData A nf outputTimeStep w P"
  let ?reach = "\<exists>n. ?ts ! (length ?ts - 1) \<le> queryTime outputTimeStep (?ts ! 0) n"
  from valid have ne: "?ts \<noteq> []"
    by (simp add: validInput_def orderedTimeVectorOf_Nil)
  then have "?ts ! 0 \<in> set ?ts" by simp
  with doubles have first: "isDouble (?ts ! 0)" by (simp add: orderedTimeVectorOf_sort)
  have returns: "?run \<noteq> None \<longleftrightarrow> ?reach" by (rule calculate_returns [OF valid])
  have history: "(\<exists>history. ?run = Some (Inr history)) \<longleftrightarrow> ?reach"
  proof
    assume "\<exists>history. ?run = Some (Inr history)"
    then have "?run \<noteq> None" by auto
    with returns show ?reach by simp
  next
    assume ?reach
    then obtain n where "?ts ! (length ?ts - 1) \<le> queryTime outputTimeStep (?ts ! 0) n" ..
    from calculate_entries [OF valid this] show "\<exists>history. ?run = Some (Inr history)" by blast
  qed
  have never: "?run = None
      \<longleftrightarrow> (\<forall>n. queryTime outputTimeStep (?ts ! 0) n < ?ts ! (length ?ts - 1))"
    using returns by (auto simp: not_le [symmetric])
  have nonpositive: "?run = None" if neg: "outputTimeStep \<le> 0"
  proof -
    from distinct obtain a b
      where ab: "a \<in> set (getConcatenatedTimeVector getObservableSize measurementData)"
        "b \<in> set (getConcatenatedTimeVector getObservableSize measurementData)" "a \<noteq> b"
      by blast
    have "sorted ?ts" "a \<in> set ?ts" "b \<in> set ?ts"
      using ab by (simp_all add: orderedTimeVectorOf_sort)
    from sorted_first_less_last [OF this \<open>a \<noteq> b\<close>]
    have lt: "?ts ! 0 < ?ts ! (length ?ts - 1)" .
    have "queryTime outputTimeStep (?ts ! 0) n < ?ts ! (length ?ts - 1)" for n
      using queryTime_nonpositive_step [OF first neg, of n] lt by simp
    with never show ?thesis by simp
  qed
  have progress: "\<exists>history. ?run = Some (Inr history)"
    if "\<forall>c. isDouble c \<and> ?ts ! 0 \<le> c \<and> c < ?ts ! (length ?ts - 1)
          \<longrightarrow> c < doubleAdd c outputTimeStep"
  proof -
    from that have "?reach" by (intro queryTime_reaches [OF first]) blast
    with history show ?thesis by simp
  qed
  from history never nonpositive progress show ?thesis by blast
qed

text \<open>
  Two range observations at times 0 and 5. With the step 1 every sum is exact, no query
  time below 5 absorbs the step, and the query time is 5 after five additions: the
  function returns. With the steps 0 and -1 it never returns.
\<close>

theorem calculateCovariance_termination_witness:
  "validInput (\<lambda>u::unit. 1) [((), [((), ([0, 0], ([0, 5], ())))])]
      (Matrix 1 [[1], [1]]) [1] [1, 1] (Matrix 1 [[1]])
   \<and> getConcatenatedTimeVector (\<lambda>u::unit. 1) [((), [((), ([0, 0], ([0, 5], ())))])] = [0, 5]
   \<and> orderedTimeVectorOf (\<lambda>u::unit. 1) [((), [((), ([0, 0], ([0, 5], ())))])] = [0, 5]
   \<and> isDouble 0 \<and> isDouble 5
   \<and> queryTime 1 0 5 = 5
   \<and> \<not> (\<exists>c. isDouble c \<and> 0 \<le> c \<and> c < 5 \<and> doubleAdd c 1 \<le> c)
   \<and> (\<exists>history. calculateCovarianceMatrixAsFunctionOfTime (\<lambda>u::unit. 1)
          [((), [((), ([0, 0], ([0, 5], ())))])]
          (Matrix 1 [[1], [1]]) [1] 1 [1, 1] (Matrix 1 [[1]]) = Some (Inr history))
   \<and> calculateCovarianceMatrixAsFunctionOfTime (\<lambda>u::unit. 1)
          [((), [((), ([0, 0], ([0, 5], ())))])]
          (Matrix 1 [[1], [1]]) [1] 0 [1, 1] (Matrix 1 [[1]]) = None
   \<and> calculateCovarianceMatrixAsFunctionOfTime (\<lambda>u::unit. 1)
          [((), [((), ([0, 0], ([0, 5], ())))])]
          (Matrix 1 [[1], [1]]) [1] (- 1) [1, 1] (Matrix 1 [[1]]) = None"
proof -
  let ?md = "[((), [((), ([0, 0], ([0, 5], ())))])] :: (unit, unit, unit) PodInputType"
  have ct: "getConcatenatedTimeVector (\<lambda>u::unit. 1) ?md = [0, 5]"
    by (simp add: getConcatenatedTimeVector_def currentTimesList_def)
  have valid: "validInput (\<lambda>u::unit. 1) ?md (Matrix 1 [[1], [1]]) [1] [1, 1] (Matrix 1 [[1]])"
    by (simp add: validInput_def checkInput_def rows_def ct)
  have ot: "orderedTimeVectorOf (\<lambda>u::unit. 1) ?md = [0, 5]"
    by (simp add: sorted_input(2) ct)
  have distinct: "\<exists>a \<in> set (getConcatenatedTimeVector (\<lambda>u::unit. 1) ?md).
      \<exists>b \<in> set (getConcatenatedTimeVector (\<lambda>u::unit. 1) ?md). a \<noteq> b"
    by (auto simp: ct)
  have doubles: "\<forall>t \<in> set (getConcatenatedTimeVector (\<lambda>u::unit. 1) ?md). isDouble t"
    by (simp add: ct isDouble_small_ints)
  have q: "queryTime 1 0 5 = 5"
    by (simp add: eval_nat_numeral doubleAdd_small_ints)
  have p: "\<not> (\<exists>c. isDouble c \<and> 0 \<le> c \<and> c < 5 \<and> doubleAdd c 1 \<le> c)"
  proof
    assume "\<exists>c. isDouble c \<and> 0 \<le> c \<and> c < 5 \<and> doubleAdd c 1 \<le> c"
    then obtain c :: real where c: "0 \<le> c" "c < 5" "doubleAdd c 1 \<le> c" by blast
    from c(2) have "c < 2 ^ 52" by simp
    from doubleAdd_one_progress [OF c(1) this] c(3) show False by simp
  qed
  have r1: "\<exists>history. calculateCovarianceMatrixAsFunctionOfTime (\<lambda>u::unit. 1) ?md
          (Matrix 1 [[1], [1]]) [1] 1 [1, 1] (Matrix 1 [[1]]) = Some (Inr history)"
    using calculateCovariance_termination [OF valid distinct doubles, of 1] p
    by (simp only: ot) (auto simp: not_le)
  from calculateCovariance_termination [OF valid distinct doubles, of 0]
    calculateCovariance_termination [OF valid distinct doubles, of "- 1"]
  have r2: "calculateCovarianceMatrixAsFunctionOfTime (\<lambda>u::unit. 1) ?md
          (Matrix 1 [[1], [1]]) [1] 0 [1, 1] (Matrix 1 [[1]]) = None"
    "calculateCovarianceMatrixAsFunctionOfTime (\<lambda>u::unit. 1) ?md
          (Matrix 1 [[1], [1]]) [1] (- 1) [1, 1] (Matrix 1 [[1]]) = None"
    by simp_all
  from valid ct ot q p r1 r2 show ?thesis by (simp add: isDouble_small_ints)
qed

text \<open>
  C9 as stated fails for a positive step that is absorbed: the observation times
  \<open>10^16\<close> and \<open>10^16 + 4\<close> are doubles, the step is 1, the sum \<open>10^16 + 1\<close> rounds
  back to \<open>10^16\<close>, and the loop of lines 237 to 271 never ends.
\<close>

theorem calculateCovariance_termination_counterexample:
  "validInput (\<lambda>u::unit. 1)
      [((), [((), ([0, 0], ([10000000000000000, 10000000000000004], ())))])]
      (Matrix 1 [[1], [1]]) [1] [1, 1] (Matrix 1 [[1]])
   \<and> getConcatenatedTimeVector (\<lambda>u::unit. 1)
      [((), [((), ([0, 0], ([10000000000000000, 10000000000000004], ())))])]
      = [10000000000000000, 10000000000000004]
   \<and> isDouble 10000000000000000 \<and> isDouble 10000000000000004
   \<and> (0::real) < 1
   \<and> doubleAdd 10000000000000000 1 = 10000000000000000
   \<and> calculateCovarianceMatrixAsFunctionOfTime (\<lambda>u::unit. 1)
        [((), [((), ([0, 0], ([10000000000000000, 10000000000000004], ())))])]
        (Matrix 1 [[1], [1]]) [1] 1 [1, 1] (Matrix 1 [[1]]) = None"
proof -
  let ?md = "[((), [((), ([0, 0], ([10000000000000000, 10000000000000004], ())))])]
      :: (unit, unit, unit) PodInputType"
  have ct: "getConcatenatedTimeVector (\<lambda>u::unit. 1) ?md
      = [10000000000000000, 10000000000000004]"
    by (simp add: getConcatenatedTimeVector_def currentTimesList_def)
  have valid: "validInput (\<lambda>u::unit. 1) ?md (Matrix 1 [[1], [1]]) [1] [1, 1] (Matrix 1 [[1]])"
    by (simp add: validInput_def checkInput_def rows_def ct)
  have "outputLoop [10000000000000000, 10000000000000004] (Matrix 1 [[1], [1]]) [1, 1]
      (Matrix 1 [[1]]) (asDiagonal [1]) 1 ([10000000000000000, 10000000000000004] ! 0)
      Map.empty = None"
    by (rule outputLoop_never) (simp_all add: queryTime_absorbed doubleAdd_absorbed_example)
  then have "calculateCovarianceMatrixAsFunctionOfTime (\<lambda>u::unit. 1) ?md
        (Matrix 1 [[1], [1]]) [1] 1 [1, 1] (Matrix 1 [[1]]) = None"
    by (subst calculate_sorted [OF valid ct]) simp_all
  with valid ct isDouble_large_examples doubleAdd_absorbed_example show ?thesis by simp
qed

subsection \<open>The stored covariance\<close>

text \<open>
  C1, as the code has it. For every valid input and every output time step, every matrix
  stored in a covariance history that the function returns is
  \<open>inverse D * C * inverse D\<close>, where \<open>D\<close> is the diagonal matrix of the normalization
  factors and \<open>C\<close> is the inverse of the updated normalized covariance sum over the
  rows up to the index of the epoch: lines 269 and 270 multiply by
  \<^verbatim>\<open>unnormalizationMatrix.inverse( )\<close> on both sides, not by the matrix itself. The
  function returns such a history whenever the query time reaches the last observation
  time after finitely many additions of the step.
\<close>

theorem covariance_unnormalized_by_inverse:
  assumes "validInput getObservableSize measurementData A nf w P"
  shows "(\<forall>history.
      calculateCovarianceMatrixAsFunctionOfTime getObservableSize measurementData A nf
        outputTimeStep w P = Some (Inr history)
      \<longrightarrow> (\<forall>t v. history t = Some v \<longrightarrow>
           (\<exists>currentIndex < length (orderedTimeVectorOf getObservableSize measurementData).
              t = orderedTimeVectorOf getObservableSize measurementData ! currentIndex
              \<and> v = multR (multR (inverseM (asDiagonal nf))
                     (inverseM (calculateInverseOfUpdatedCovarianceMatrix
                        (topRows (currentIndex + 1)
                           (timeOrderedMatrixOf getObservableSize measurementData A))
                        (segment0 (currentIndex + 1)
                           (timeOrderedDiagonalOfWeightMatrix
                              (timeOrderOf getObservableSize measurementData) w))
                        P)))
                   (inverseM (asDiagonal nf)))))
    \<and> ((\<exists>n. orderedTimeVectorOf getObservableSize measurementData !
              (length (orderedTimeVectorOf getObservableSize measurementData) - 1)
            \<le> queryTime outputTimeStep
                (orderedTimeVectorOf getObservableSize measurementData ! 0) n)
        \<longrightarrow> (\<exists>history.
              calculateCovarianceMatrixAsFunctionOfTime getObservableSize measurementData A nf
                outputTimeStep w P = Some (Inr history)))"
proof (intro conjI allI impI)
  fix history t v
  assume run: "calculateCovarianceMatrixAsFunctionOfTime getObservableSize measurementData
      A nf outputTimeStep w P = Some (Inr history)"
    and stored: "history t = Some v"
  from run have "calculateCovarianceMatrixAsFunctionOfTime getObservableSize measurementData
      A nf outputTimeStep w P \<noteq> None" by simp
  with calculate_returns [OF assms] obtain n
    where "orderedTimeVectorOf getObservableSize measurementData !
              (length (orderedTimeVectorOf getObservableSize measurementData) - 1)
            \<le> queryTime outputTimeStep
                (orderedTimeVectorOf getObservableSize measurementData ! 0) n" by blast
  from calculate_entries [OF assms this] run stored
  have "\<exists>j < length (orderedTimeVectorOf getObservableSize measurementData).
          t = orderedTimeVectorOf getObservableSize measurementData ! j
          \<and> v = covarianceUpTo (timeOrderedMatrixOf getObservableSize measurementData A)
               (timeOrderedDiagonalOfWeightMatrix
                  (timeOrderOf getObservableSize measurementData) w) P (asDiagonal nf) j"
    by auto
  then show "\<exists>currentIndex < length (orderedTimeVectorOf getObservableSize measurementData).
              t = orderedTimeVectorOf getObservableSize measurementData ! currentIndex
              \<and> v = multR (multR (inverseM (asDiagonal nf))
                     (inverseM (calculateInverseOfUpdatedCovarianceMatrix
                        (topRows (currentIndex + 1)
                           (timeOrderedMatrixOf getObservableSize measurementData A))
                        (segment0 (currentIndex + 1)
                           (timeOrderedDiagonalOfWeightMatrix
                              (timeOrderOf getObservableSize measurementData) w))
                        P)))
                   (inverseM (asDiagonal nf))"
    by (simp add: covarianceUpTo_def Let_def)
next
  assume "\<exists>n. orderedTimeVectorOf getObservableSize measurementData !
              (length (orderedTimeVectorOf getObservableSize measurementData) - 1)
            \<le> queryTime outputTimeStep
                (orderedTimeVectorOf getObservableSize measurementData ! 0) n"
  then obtain n where "orderedTimeVectorOf getObservableSize measurementData !
              (length (orderedTimeVectorOf getObservableSize measurementData) - 1)
            \<le> queryTime outputTimeStep
                (orderedTimeVectorOf getObservableSize measurementData ! 0) n" ..
  from calculate_entries [OF assms this]
  show "\<exists>history.
      calculateCovarianceMatrixAsFunctionOfTime getObservableSize measurementData A nf
        outputTimeStep w P = Some (Inr history)" by blast
qed

text \<open>
  Two range observations at times 0 and 1 with partials 1 and 1, weights 1, a-priori
  inverse covariance 2 and normalization factor 2, output step 1. The sum is
  2 + 1 + 1 = 4, so \<open>C = 1/4\<close>, and the entry stored at time 1 is
  \<open>1/2 * 1/4 * 1/2 = 1/16\<close>.
\<close>

lemma example_one_parameter:
  "validInput (\<lambda>u::unit. 1) [((), [((), ([0, 0], ([0, 1], ())))])]
      (Matrix 1 [[1], [1]]) [2] [1, 1] (Matrix 1 [[2]])
   \<and> orderedTimeVectorOf (\<lambda>u::unit. 1) [((), [((), ([0, 0], ([0, 1], ())))])] = [0, 1]
   \<and> calculateCovarianceMatrixAsFunctionOfTime (\<lambda>u::unit. 1)
         [((), [((), ([0, 0], ([0, 1], ())))])]
         (Matrix 1 [[1], [1]]) [2] 1 [1, 1] (Matrix 1 [[2]])
       = Some (Inr (Map.empty(1 \<mapsto> Defined (Matrix 1 [[1 / 16]]))))"
proof -
  have ct: "getConcatenatedTimeVector (\<lambda>u::unit. 1) [((), [((), ([0, 0], ([0, 1], ())))])]
      = [0, 1]"
    by (simp add: getConcatenatedTimeVector_def currentTimesList_def)
  have valid: "validInput (\<lambda>u::unit. 1) [((), [((), ([0, 0], ([0, 1], ())))])]
      (Matrix 1 [[1], [1]]) [2] [1, 1] (Matrix 1 [[2]])"
    by (simp add: validInput_def ct checkInput_def rows_def)
  have i1: "extendIndex [0, 1] (findNearestLowerNeighbour [0, 1] (doubleAdd 0 1)) = Inr 1"
    by (simp add: extendIndex_def findNearestLowerNeighbour_def doubleAdd_small_ints)
  have s: "sorted [0, 1 :: real]" by simp
  have ot: "orderedTimeVectorOf (\<lambda>u::unit. 1) [((), [((), ([0, 0], ([0, 1], ())))])]
      = [0, 1]"
    by (simp add: sorted_input(2) ct)
  have "calculateCovarianceMatrixAsFunctionOfTime (\<lambda>u::unit. 1)
         [((), [((), ([0, 0], ([0, 1], ())))])]
         (Matrix 1 [[1], [1]]) [2] 1 [1, 1] (Matrix 1 [[2]])
       = Some (Inr (Map.empty(1 \<mapsto> Defined (Matrix 1 [[1 / 16]]))))"
    unfolding calculate_sorted [OF valid ct s]
    by (simp add: outputLoop_step [OF _ i1] outputLoop_stop doubleAdd_small_ints matrix_defs)
  with valid ot show ?thesis by simp
qed

theorem covariance_unnormalized_by_inverse_witness:
  "validInput (\<lambda>u::unit. 1) [((), [((), ([0, 0], ([0, 1], ())))])]
      (Matrix 1 [[1], [1]]) [2] [1, 1] (Matrix 1 [[2]])
   \<and> orderedTimeVectorOf (\<lambda>u::unit. 1) [((), [((), ([0, 0], ([0, 1], ())))])] = [0, 1]
   \<and> [0, 1 :: real] ! (length [0, 1 :: real] - 1) \<le> queryTime 1 ([0, 1] ! 0) 1
   \<and> calculateCovarianceMatrixAsFunctionOfTime (\<lambda>u::unit. 1)
         [((), [((), ([0, 0], ([0, 1], ())))])]
         (Matrix 1 [[1], [1]]) [2] 1 [1, 1] (Matrix 1 [[2]])
       = Some (Inr (Map.empty(1 \<mapsto> Defined (Matrix 1 [[1 / 16]]))))
   \<and> multR (multR (inverseM (asDiagonal [2]))
         (inverseM (calculateInverseOfUpdatedCovarianceMatrix
            (topRows 2 (Matrix 1 [[1], [1]])) (segment0 2 [1, 1]) (Matrix 1 [[2]]))))
       (inverseM (asDiagonal [2]))
       = Defined (Matrix 1 [[1 / 16]])"
proof -
  have stored: "multR (multR (inverseM (asDiagonal [2]))
         (inverseM (calculateInverseOfUpdatedCovarianceMatrix
            (topRows 2 (Matrix 1 [[1], [1]])) (segment0 2 [1, 1]) (Matrix 1 [[2]]))))
       (inverseM (asDiagonal [2]))
       = Defined (Matrix 1 [[1 / 16]])"
    by (simp add: matrix_defs)
  have reach: "[0, 1 :: real] ! (length [0, 1 :: real] - 1) \<le> queryTime 1 ([0, 1] ! 0) 1"
    by (simp add: doubleAdd_small_ints)
  from example_one_parameter
    covariance_unnormalized_by_inverse [of "\<lambda>u::unit. 1"
      "[((), [((), ([0, 0], ([0, 1], ())))])]" "Matrix 1 [[1], [1]]" "[2]" "[1, 1]"
      "Matrix 1 [[2]]" 1] stored reach
  show ?thesis by simp
qed

text \<open>
  C1 as stated fails on the same input: the stored entry is \<open>1/16\<close>, while
  \<open>D * C * D\<close> with \<open>D = 2\<close> and \<open>C = 1/4\<close> is 1.
\<close>

theorem covariance_not_D_C_D_counterexample:
  "calculateCovarianceMatrixAsFunctionOfTime (\<lambda>u::unit. 1)
         [((), [((), ([0, 0], ([0, 1], ())))])]
         (Matrix 1 [[1], [1]]) [2] 1 [1, 1] (Matrix 1 [[2]])
       = Some (Inr (Map.empty(1 \<mapsto> Defined (Matrix 1 [[1 / 16]]))))
   \<and> multR (multR (Defined (asDiagonal [2]))
         (inverseM (calculateInverseOfUpdatedCovarianceMatrix
            (Matrix 1 [[1], [1]]) [1, 1] (Matrix 1 [[2]]))))
       (Defined (asDiagonal [2]))
       = Defined (Matrix 1 [[1]])
   \<and> Defined (Matrix 1 [[1 / 16]]) \<noteq> Defined (Matrix 1 [[1]])"
proof -
  have "multR (multR (Defined (asDiagonal [2]))
         (inverseM (calculateInverseOfUpdatedCovarianceMatrix
            (Matrix 1 [[1], [1]]) [1, 1] (Matrix 1 [[2]]))))
       (Defined (asDiagonal [2]))
       = Defined (Matrix 1 [[1]])"
    by (simp add: matrix_defs)
  with example_one_parameter show ?thesis by simp
qed


subsection \<open>A singular sum\<close>





section \<open>Runs of equal times\<close>

lemma tieLoop_run:
  "tieLoop ts i = Inr j \<Longrightarrow> i \<le> k \<Longrightarrow> k \<le> j \<Longrightarrow> ts ! k = ts ! i"
proof (induction ts i rule: tieLoop.induct)
  case (1 ts i)
  show ?case
  proof (cases "length ts \<le> i + 1")
    case True
    with "1.prems"(1) show ?thesis by (simp add: tieLoop.simps [of ts i])
  next
    case inside: False
    show ?thesis
    proof (cases "ts ! i = ts ! (i + 1)")
      case False
      with inside "1.prems" show ?thesis by (simp add: tieLoop.simps [of ts i])
    next
      case eq: True
      show ?thesis
      proof (cases "i + 1 = length ts - 1")
        case True
        with inside eq "1.prems"(1) have "j = i + 1" by (simp add: tieLoop.simps [of ts i])
        with "1.prems"(2,3) have "k = i \<or> k = i + 1" by auto
        with eq show ?thesis by auto
      next
        case False
        with inside eq "1.prems"(1) have next_run: "tieLoop ts (i + 1) = Inr j"
          by (simp add: tieLoop.simps [of ts i])
        show ?thesis
        proof (cases "k = i")
          case True
          then show ?thesis by simp
        next
          case False
          with "1.prems"(2) have "i + 1 \<le> k" by simp
          from "1.IH" [OF inside eq \<open>i + 1 \<noteq> length ts - 1\<close> next_run this "1.prems"(3)] eq
          show ?thesis by simp
        qed
      qed
    qed
  qed
qed

lemma extendIndex_run:
  assumes "extendIndex ts i = Inr j" and "i \<le> k" and "k \<le> j"
  shows "ts ! k = ts ! i"
proof (cases "ts = [] \<or> i \<noteq> length ts - 1")
  case True
  with assms(1) have "tieLoop ts i = Inr j"
    by (auto simp: extendIndex_def split: sum.splits if_splits)
  from tieLoop_run [OF this assms(2,3)] show ?thesis .
next
  case False
  with assms(1) have "j = i" by (auto simp: extendIndex_def split: if_splits)
  with assms(2,3) show ?thesis by simp
qed

lemma cluster_end_sorted:
  assumes "sorted (ts :: real list)" and "j < length ts"
    and "j = length ts - 1 \<or> ts ! j \<noteq> ts ! (j + 1)"
  shows "j = length ts - 1 \<or> ts ! j < ts ! (j + 1)"
proof (cases "j = length ts - 1")
  case True
  then show ?thesis by simp
next
  case False
  with assms have "j + 1 < length ts" "ts ! j \<noteq> ts ! (j + 1)" by auto
  moreover from this assms(1) have "ts ! j \<le> ts ! (j + 1)"
    by (simp add: sorted_iff_nth_mono)
  ultimately show ?thesis by simp
qed

text \<open>
  Every entry of a returned history is stored at the index that lines 243 to 260 compute
  for one of the query times.
\<close>

lemma outputLoop_epochs:
  assumes ne: "ts \<noteq> []" and reach: "ts ! (length ts - 1) \<le> queryTime dt cur n"
  shows "\<exists>m. outputLoop ts H w P D dt cur Map.empty = Some (Inr m)
     \<and> (\<forall>t v. m t = Some v \<longrightarrow>
           (\<exists>k j. extendIndex ts
                    (findNearestLowerNeighbour ts (queryTime dt cur (Suc k))) = Inr j
               \<and> t = ts ! j \<and> v = covarianceUpTo H w P D j))"
proof -
  let ?I = "\<lambda>(c::real) g. (\<exists>k. c = queryTime dt cur k)
      \<and> (\<forall>t v. g t = Some v \<longrightarrow>
           (\<exists>k j. extendIndex ts
                    (findNearestLowerNeighbour ts (queryTime dt cur (Suc k))) = Inr j
               \<and> t = ts ! j \<and> v = covarianceUpTo H w P D j))"
  have "cur = queryTime dt cur 0" by simp
  then have init: "?I cur Map.empty" by blast
  have "\<exists>c' m. outputLoop ts H w P D dt cur Map.empty = Some (Inr m)
      \<and> ts ! (length ts - 1) \<le> c' \<and> ?I c' m"
  proof (rule outputLoop_rule [where I = ?I, OF ne _ reach init])
    fix c :: real and g :: "real \<rightharpoonup> eigenResult" and j
    assume inv: "?I c g"
      and j: "extendIndex ts (findNearestLowerNeighbour ts (doubleAdd c dt)) = Inr j"
    from inv obtain k where k: "c = queryTime dt cur k" by blast
    then have next_time: "doubleAdd c dt = queryTime dt cur (Suc k)"
      by (simp only: queryTime_Suc)
    with j have entry: "extendIndex ts
        (findNearestLowerNeighbour ts (queryTime dt cur (Suc k))) = Inr j" by simp
    have "\<exists>k. doubleAdd c dt = queryTime dt cur k" using next_time ..
    moreover have "\<exists>k j'. extendIndex ts
                    (findNearestLowerNeighbour ts (queryTime dt cur (Suc k))) = Inr j'
               \<and> t = ts ! j' \<and> v = covarianceUpTo H w P D j'"
      if "(g(ts ! j \<mapsto> covarianceUpTo H w P D j)) t = Some v" for t v
    proof (cases "t = ts ! j")
      case True
      with that have "v = covarianceUpTo H w P D j" by simp
      with entry True show ?thesis by blast
    next
      case False
      with that have "g t = Some v" by simp
      with inv show ?thesis by blast
    qed
    ultimately show "?I (doubleAdd c dt) (g(ts ! j \<mapsto> covarianceUpTo H w P D j))"
      by blast
  qed
  then show ?thesis by blast
qed

lemma calculate_epochs:
  assumes valid: "validInput sz md A nf w P"
    and run: "calculateCovarianceMatrixAsFunctionOfTime sz md A nf dt w P = Some (Inr m)"
    and stored: "m t = Some v"
  shows "\<exists>k j. extendIndex (orderedTimeVectorOf sz md)
             (findNearestLowerNeighbour (orderedTimeVectorOf sz md)
                (queryTime dt (orderedTimeVectorOf sz md ! 0) (Suc k))) = Inr j
           \<and> j < length (orderedTimeVectorOf sz md)
           \<and> t = orderedTimeVectorOf sz md ! j
           \<and> (j = length (orderedTimeVectorOf sz md) - 1
                \<or> orderedTimeVectorOf sz md ! j < orderedTimeVectorOf sz md ! (j + 1))
           \<and> v = covarianceUpTo (timeOrderedMatrixOf sz md A)
                 (timeOrderedDiagonalOfWeightMatrix (timeOrderOf sz md) w) P
                 (asDiagonal nf) j"
proof -
  let ?ts = "orderedTimeVectorOf sz md"
  from valid have ne: "?ts \<noteq> []"
    by (simp add: validInput_def orderedTimeVectorOf_Nil)
  have sorted: "sorted ?ts" by (simp add: orderedTimeVectorOf_sort)
  from run have "calculateCovarianceMatrixAsFunctionOfTime sz md A nf dt w P \<noteq> None"
    by simp
  with calculate_returns [OF valid] obtain n
    where reach: "?ts ! (length ?ts - 1) \<le> queryTime dt (?ts ! 0) n" by blast
  from outputLoop_epochs [OF ne reach, of "timeOrderedMatrixOf sz md A"
      "timeOrderedDiagonalOfWeightMatrix (timeOrderOf sz md) w" P "asDiagonal nf"]
  obtain m' where m': "outputLoop ?ts (timeOrderedMatrixOf sz md A)
        (timeOrderedDiagonalOfWeightMatrix (timeOrderOf sz md) w) P (asDiagonal nf) dt
        (?ts ! 0) Map.empty = Some (Inr m')"
    and entries: "\<And>t v. m' t = Some v \<Longrightarrow>
      \<exists>k j. extendIndex ?ts
          (findNearestLowerNeighbour ?ts (queryTime dt (?ts ! 0) (Suc k))) = Inr j
        \<and> t = ?ts ! j
        \<and> v = covarianceUpTo (timeOrderedMatrixOf sz md A)
                 (timeOrderedDiagonalOfWeightMatrix (timeOrderOf sz md) w) P
                 (asDiagonal nf) j"
    by blast
  from run m' have "m' = m" by (simp only: calculate_valid [OF valid]) simp
  with stored have "m' t = Some v" by simp
  from entries [OF this]
  obtain k j where kj: "extendIndex ?ts
        (findNearestLowerNeighbour ?ts (queryTime dt (?ts ! 0) (Suc k))) = Inr j"
      "t = ?ts ! j"
      "v = covarianceUpTo (timeOrderedMatrixOf sz md A)
                 (timeOrderedDiagonalOfWeightMatrix (timeOrderOf sz md) w) P
                 (asDiagonal nf) j"
    by blast
  from extendIndex_result [OF findNearestLowerNeighbour_less [OF ne],
      of "queryTime dt (?ts ! 0) (Suc k)"] kj(1)
  have j: "j < length ?ts" "j = length ?ts - 1 \<or> ?ts ! j \<noteq> ?ts ! (j + 1)" by auto
  from cluster_end_sorted [OF sorted j] kj j(1) show ?thesis by blast
qed

lemma scenario_indices:
  "extendIndex [0, 1, 1, 3] (findNearestLowerNeighbour [0, 1, 1, 3] (doubleAdd 0 2)) = Inr 2"
  "extendIndex [0, 1, 1, 3]
     (findNearestLowerNeighbour [0, 1, 1, 3] (doubleAdd (doubleAdd 0 2) 2)) = Inr 3"
proof -
  have "tieLoop [0, 1, 1, 3] (Suc (Suc 0)) = Inr 2"
    by (subst tieLoop.simps) simp
  then show "extendIndex [0, 1, 1, 3]
      (findNearestLowerNeighbour [0, 1, 1, 3] (doubleAdd 0 2)) = Inr 2"
    by (simp add: extendIndex_def findNearestLowerNeighbour_def doubleAdd_small_ints)
  show "extendIndex [0, 1, 1, 3]
      (findNearestLowerNeighbour [0, 1, 1, 3] (doubleAdd (doubleAdd 0 2) 2)) = Inr 3"
    by (simp add: extendIndex_def findNearestLowerNeighbour_def doubleAdd_small_ints)
qed

lemma scenario_loop:
  "outputLoop [0, 1, 1, 3] H w P D 2 ([0, 1, 1, 3] ! 0) Map.empty =
     Some (Inr (Map.empty(1 \<mapsto> covarianceUpTo H w P D 2, 3 \<mapsto> covarianceUpTo H w P D 3)))"
proof -
  have "outputLoop [0, 1, 1, 3] H w P D 2 0 Map.empty =
      outputLoop [0, 1, 1, 3] H w P D 2 (doubleAdd 0 2)
        (Map.empty([0, 1, 1, 3] ! 2 \<mapsto> covarianceUpTo H w P D 2))"
    by (rule outputLoop_step [OF _ scenario_indices(1)]) simp
  also have "\<dots> = outputLoop [0, 1, 1, 3] H w P D 2 (doubleAdd (doubleAdd 0 2) 2)
        (Map.empty([0, 1, 1, 3] ! 2 \<mapsto> covarianceUpTo H w P D 2,
                   [0, 1, 1, 3] ! 3 \<mapsto> covarianceUpTo H w P D 3))"
    by (rule outputLoop_step [OF _ scenario_indices(2)]) (simp add: doubleAdd_small_ints)
  also have "\<dots> = Some (Inr (Map.empty([0, 1, 1, 3] ! 2 \<mapsto> covarianceUpTo H w P D 2,
                   [0, 1, 1, 3] ! 3 \<mapsto> covarianceUpTo H w P D 3)))"
    by (rule outputLoop_stop) (simp add: doubleAdd_small_ints)
  finally show ?thesis by simp
qed

lemma scenario_tie: "extendIndex [0, 1, 1, 3] 1 = Inr 2"
proof -
  have "tieLoop [0, 1, 1, 3] (Suc (Suc 0)) = Inr 2"
    by (subst tieLoop.simps) simp
  then have "tieLoop [0, 1, 1, 3] (Suc 0) = Inr 2"
    by (subst tieLoop.simps) simp
  then show ?thesis by (simp add: extendIndex_def)
qed

subsection \<open>No output epoch inside a run of equal times\<close>

text \<open>
  C3. For every valid input and every output time step, each entry of a returned history
  is stored at the index that lines 243 to 260 compute for one of the query times; the
  key is the ordered time at that index, the index is the last row or is followed by a
  strictly later time, and the value is the covariance of the rows up to that index: an
  epoch never ends inside a run of equal times. The function returns such a history
  whenever the query time reaches the last observation time after finitely many
  additions of the step. The tie loop of lines 245 to 255 itself, started at any index
  of any time vector, returns an index at or after the start, all times from the start
  to it are equal, and it is the last row or the next time differs. In the scenario
  (concatenated times 0, 1, 1, 3, unit weights, two parameters, step 2, any partials,
  a-priori matrix and normalization factors) the history has exactly the keys 1 and 3;
  the entry at 1 is computed from the first three rows, which hold both observations of
  time 1, the entry at 3 from all four.
\<close>

theorem ties_never_split:
  "(validInput getObservableSize measurementData A nf w P \<longrightarrow>
      (\<forall>history.
         calculateCovarianceMatrixAsFunctionOfTime getObservableSize measurementData A nf
           outputTimeStep w P = Some (Inr history)
         \<longrightarrow> (\<forall>t v. history t = Some v \<longrightarrow>
              (\<exists>n j. extendIndex (orderedTimeVectorOf getObservableSize measurementData)
                       (findNearestLowerNeighbour
                          (orderedTimeVectorOf getObservableSize measurementData)
                          (queryTime outputTimeStep
                             (orderedTimeVectorOf getObservableSize measurementData ! 0)
                             (Suc n))) = Inr j
                 \<and> j < length (orderedTimeVectorOf getObservableSize measurementData)
                 \<and> t = orderedTimeVectorOf getObservableSize measurementData ! j
                 \<and> (j = length (orderedTimeVectorOf getObservableSize measurementData) - 1
                      \<or> orderedTimeVectorOf getObservableSize measurementData ! j
                          < orderedTimeVectorOf getObservableSize measurementData ! (j + 1))
                 \<and> v = covarianceUpTo
                       (timeOrderedMatrixOf getObservableSize measurementData A)
                       (timeOrderedDiagonalOfWeightMatrix
                          (timeOrderOf getObservableSize measurementData) w)
                       P (asDiagonal nf) j)))
      \<and> ((\<exists>n. orderedTimeVectorOf getObservableSize measurementData !
                (length (orderedTimeVectorOf getObservableSize measurementData) - 1)
              \<le> queryTime outputTimeStep
                  (orderedTimeVectorOf getObservableSize measurementData ! 0) n)
          \<longrightarrow> (\<exists>history.
                calculateCovarianceMatrixAsFunctionOfTime getObservableSize measurementData
                  A nf outputTimeStep w P = Some (Inr history))))
   \<and> (currentIndex < length orderedTimeVector \<longrightarrow>
        (\<exists>j. extendIndex orderedTimeVector currentIndex = Inr j
           \<and> currentIndex \<le> j \<and> j < length orderedTimeVector
           \<and> (\<forall>k. currentIndex \<le> k \<and> k \<le> j
                 \<longrightarrow> orderedTimeVector ! k = orderedTimeVector ! currentIndex)
           \<and> (j = length orderedTimeVector - 1
                \<or> orderedTimeVector ! j \<noteq> orderedTimeVector ! (j + 1))))
   \<and> (getConcatenatedTimeVector getObservableSize measurementData = [0, 1, 1, 3]
        \<and> cols P = 2 \<and> rows P = 2 \<and> length nf = 2 \<longrightarrow>
      calculateCovarianceMatrixAsFunctionOfTime getObservableSize measurementData
        (Matrix 2 [r0, r1, r2, r3]) nf 2 [1, 1, 1, 1] P =
      Some (Inr (Map.empty
        (1 \<mapsto> multR (multR (inverseM (asDiagonal nf))
                (inverseM (calculateInverseOfUpdatedCovarianceMatrix
                   (Matrix 2 [r0, r1, r2]) [1, 1, 1] P)))
              (inverseM (asDiagonal nf)),
         3 \<mapsto> multR (multR (inverseM (asDiagonal nf))
                (inverseM (calculateInverseOfUpdatedCovarianceMatrix
                   (Matrix 2 [r0, r1, r2, r3]) [1, 1, 1, 1] P)))
              (inverseM (asDiagonal nf))))))"
proof (intro conjI impI allI)
  let ?ts = "orderedTimeVectorOf getObservableSize measurementData"
  fix history t v
  assume valid: "validInput getObservableSize measurementData A nf w P"
    and run: "calculateCovarianceMatrixAsFunctionOfTime getObservableSize measurementData
        A nf outputTimeStep w P = Some (Inr history)"
    and stored: "history t = Some v"
  from calculate_epochs [OF valid run stored]
  show "\<exists>n j. extendIndex ?ts
                 (findNearestLowerNeighbour ?ts (queryTime outputTimeStep (?ts ! 0) (Suc n)))
               = Inr j
           \<and> j < length ?ts \<and> t = ?ts ! j
           \<and> (j = length ?ts - 1 \<or> ?ts ! j < ?ts ! (j + 1))
           \<and> v = covarianceUpTo
                 (timeOrderedMatrixOf getObservableSize measurementData A)
                 (timeOrderedDiagonalOfWeightMatrix
                    (timeOrderOf getObservableSize measurementData) w)
                 P (asDiagonal nf) j" .
next
  let ?ts = "orderedTimeVectorOf getObservableSize measurementData"
  assume valid: "validInput getObservableSize measurementData A nf w P"
    and "\<exists>n. ?ts ! (length ?ts - 1) \<le> queryTime outputTimeStep (?ts ! 0) n"
  then obtain n where "?ts ! (length ?ts - 1) \<le> queryTime outputTimeStep (?ts ! 0) n"
    by blast
  from calculate_entries [OF valid this]
  show "\<exists>history.
      calculateCovarianceMatrixAsFunctionOfTime getObservableSize measurementData
        A nf outputTimeStep w P = Some (Inr history)" by blast
next
  assume inside: "currentIndex < length orderedTimeVector"
  from extendIndex_result [OF inside] obtain j
    where j: "extendIndex orderedTimeVector currentIndex = Inr j" "currentIndex \<le> j"
      "j < length orderedTimeVector"
      "j = length orderedTimeVector - 1
         \<or> orderedTimeVector ! j \<noteq> orderedTimeVector ! (j + 1)"
    by blast
  have "\<forall>k. currentIndex \<le> k \<and> k \<le> j
      \<longrightarrow> orderedTimeVector ! k = orderedTimeVector ! currentIndex"
    using extendIndex_run [OF j(1)] by blast
  with j show "\<exists>j. extendIndex orderedTimeVector currentIndex = Inr j
           \<and> currentIndex \<le> j \<and> j < length orderedTimeVector
           \<and> (\<forall>k. currentIndex \<le> k \<and> k \<le> j
                 \<longrightarrow> orderedTimeVector ! k = orderedTimeVector ! currentIndex)
           \<and> (j = length orderedTimeVector - 1
                \<or> orderedTimeVector ! j \<noteq> orderedTimeVector ! (j + 1))"
    by blast
next
  assume b: "getConcatenatedTimeVector getObservableSize measurementData = [0, 1, 1, 3]
        \<and> cols P = 2 \<and> rows P = 2 \<and> length nf = 2"
  then have ct: "getConcatenatedTimeVector getObservableSize measurementData = [0, 1, 1, 3]"
    by simp
  from b have valid: "validInput getObservableSize measurementData
      (Matrix 2 [r0, r1, r2, r3]) nf [1, 1, 1, 1] P"
    by (simp add: validInput_def checkInput_None rows_def)
  have s: "sorted [0, 1, 1, 3 :: real]" by simp
  have prefix: "covarianceUpTo (Matrix 2 [r0, r1, r2, r3]) [1, 1, 1, 1] P (asDiagonal nf) 2 =
      multR (multR (inverseM (asDiagonal nf))
                (inverseM (calculateInverseOfUpdatedCovarianceMatrix
                   (Matrix 2 [r0, r1, r2]) [1, 1, 1] P)))
              (inverseM (asDiagonal nf))"
    by (simp add: covarianceUpTo_def topRows_def segment0_def)
  have full: "covarianceUpTo (Matrix 2 [r0, r1, r2, r3]) [1, 1, 1, 1] P (asDiagonal nf) 3 =
      multR (multR (inverseM (asDiagonal nf))
                (inverseM (calculateInverseOfUpdatedCovarianceMatrix
                   (Matrix 2 [r0, r1, r2, r3]) [1, 1, 1, 1] P)))
              (inverseM (asDiagonal nf))"
    by (simp add: covarianceUpTo_def topRows_def segment0_def)
  show "calculateCovarianceMatrixAsFunctionOfTime getObservableSize measurementData
        (Matrix 2 [r0, r1, r2, r3]) nf 2 [1, 1, 1, 1] P =
      Some (Inr (Map.empty
        (1 \<mapsto> multR (multR (inverseM (asDiagonal nf))
                (inverseM (calculateInverseOfUpdatedCovarianceMatrix
                   (Matrix 2 [r0, r1, r2]) [1, 1, 1] P)))
              (inverseM (asDiagonal nf)),
         3 \<mapsto> multR (multR (inverseM (asDiagonal nf))
                (inverseM (calculateInverseOfUpdatedCovarianceMatrix
                   (Matrix 2 [r0, r1, r2, r3]) [1, 1, 1, 1] P)))
              (inverseM (asDiagonal nf)))))"
    unfolding calculate_sorted [OF valid ct s] scenario_loop prefix full ..
qed

text \<open>
  The scenario with the partials (1, 0), (0, 1), (1, 1), (1, 2), the identity as
  a-priori inverse covariance and normalization factors 1: the sums are
  ((3, 1), (1, 3)) after three rows and ((4, 3), (3, 7)) after four. Started at the
  first of the two observations of time 1, the tie loop moves to the second: index 2 is
  the only one that the theorem allows.
\<close>

theorem ties_never_split_witness:
  "validInput (\<lambda>u::unit. 1) [((), [((), ([0, 0, 0, 0], ([0, 1, 1, 3], ())))])]
      (Matrix 2 [[1, 0], [0, 1], [1, 1], [1, 2]]) [1, 1] [1, 1, 1, 1]
      (Matrix 2 [[1, 0], [0, 1]])
   \<and> getConcatenatedTimeVector (\<lambda>u::unit. 1)
        [((), [((), ([0, 0, 0, 0], ([0, 1, 1, 3], ())))])] = [0, 1, 1, 3]
   \<and> calculateCovarianceMatrixAsFunctionOfTime (\<lambda>u::unit. 1)
        [((), [((), ([0, 0, 0, 0], ([0, 1, 1, 3], ())))])]
        (Matrix 2 [[1, 0], [0, 1], [1, 1], [1, 2]]) [1, 1] 2 [1, 1, 1, 1]
        (Matrix 2 [[1, 0], [0, 1]])
      = Some (Inr (Map.empty
          (1 \<mapsto> Defined (Matrix 2 [[3 / 8, - (1 / 8)], [- (1 / 8), 3 / 8]]),
           3 \<mapsto> Defined (Matrix 2 [[7 / 19, - (3 / 19)], [- (3 / 19), 4 / 19]]))))
   \<and> (1::nat) < length [0, 1, 1, 3 :: real]
   \<and> extendIndex [0, 1, 1, 3] 1 = Inr 2"
proof -
  have ct: "getConcatenatedTimeVector (\<lambda>u::unit. 1)
        [((), [((), ([0, 0, 0, 0], ([0, 1, 1, 3], ())))])] = [0, 1, 1, 3]"
    by (simp add: getConcatenatedTimeVector_def currentTimesList_def)
  have valid: "validInput (\<lambda>u::unit. 1) [((), [((), ([0, 0, 0, 0], ([0, 1, 1, 3], ())))])]
      (Matrix 2 [[1, 0], [0, 1], [1, 1], [1, 2]]) [1, 1] [1, 1, 1, 1]
      (Matrix 2 [[1, 0], [0, 1]])"
    by (simp add: validInput_def ct checkInput_def rows_def)
  have D: "inverseM (asDiagonal [1, 1]) = Defined (Matrix 2 [[1, 0], [0, 1]])"
    by (simp add: matrix_defs eval_nat_numeral)
  have three: "inverseM (calculateInverseOfUpdatedCovarianceMatrix
      (Matrix 2 [[1, 0], [0, 1], [1, 1]]) [1, 1, 1] (Matrix 2 [[1, 0], [0, 1]]))
      = Defined (Matrix 2 [[3 / 8, - (1 / 8)], [- (1 / 8), 3 / 8]])"
    by (simp add: matrix_defs eval_nat_numeral)
  have four: "inverseM (calculateInverseOfUpdatedCovarianceMatrix
      (Matrix 2 [[1, 0], [0, 1], [1, 1], [1, 2]]) [1, 1, 1, 1] (Matrix 2 [[1, 0], [0, 1]]))
      = Defined (Matrix 2 [[7 / 19, - (3 / 19)], [- (3 / 19), 4 / 19]])"
    by (simp add: matrix_defs eval_nat_numeral)
  have products: "multR (multR (Defined (Matrix 2 [[1, 0], [0, 1]]))
        (Defined (Matrix 2 [[3 / 8, - (1 / 8)], [- (1 / 8), 3 / 8]])))
        (Defined (Matrix 2 [[1, 0], [0, 1]]))
      = Defined (Matrix 2 [[3 / 8, - (1 / 8)], [- (1 / 8), 3 / 8]])"
    "multR (multR (Defined (Matrix 2 [[1, 0], [0, 1]]))
        (Defined (Matrix 2 [[7 / 19, - (3 / 19)], [- (3 / 19), 4 / 19]])))
        (Defined (Matrix 2 [[1, 0], [0, 1]]))
      = Defined (Matrix 2 [[7 / 19, - (3 / 19)], [- (3 / 19), 4 / 19]])"
    by (simp_all add: multR_def multM_def eval_nat_numeral)
  note at_scenario = ties_never_split [where getObservableSize = "\<lambda>u::unit. 1"
      and measurementData = "[((), [((), ([0, 0, 0, 0], ([0, 1, 1, 3], ())))])]"
      and A = "Matrix 2 [[1, 0], [0, 1], [1, 1], [1, 2]]" and nf = "[1, 1]"
      and w = "[1, 1, 1, 1]" and P = "Matrix 2 [[1, 0], [0, 1]]" and outputTimeStep = 2
      and ?r0.0 = "[1, 0]" and ?r1.0 = "[0, 1]" and ?r2.0 = "[1, 1]" and ?r3.0 = "[1, 2]"
      and currentIndex = 1 and orderedTimeVector = "[0, 1, 1, 3]"]
  from at_scenario
  have scenario: "calculateCovarianceMatrixAsFunctionOfTime (\<lambda>u::unit. 1)
        [((), [((), ([0, 0, 0, 0], ([0, 1, 1, 3], ())))])]
        (Matrix 2 [[1, 0], [0, 1], [1, 1], [1, 2]]) [1, 1] 2 [1, 1, 1, 1]
        (Matrix 2 [[1, 0], [0, 1]])
      = Some (Inr (Map.empty
          (1 \<mapsto> Defined (Matrix 2 [[3 / 8, - (1 / 8)], [- (1 / 8), 3 / 8]]),
           3 \<mapsto> Defined (Matrix 2 [[7 / 19, - (3 / 19)], [- (3 / 19), 4 / 19]]))))"
    unfolding D three four products
    by (simp add: ct rows_def)
  from at_scenario obtain j
    where j: "extendIndex [0, 1, 1, 3] 1 = Inr j" "1 \<le> j" "j < 4"
      and run: "\<And>k. 1 \<le> k \<Longrightarrow> k \<le> j \<Longrightarrow> [0, 1, 1, 3 :: real] ! k = [0, 1, 1, 3] ! 1"
      and finish: "j = 3 \<or> [0, 1, 1, 3 :: real] ! j \<noteq> [0, 1, 1, 3] ! (j + 1)"
    by auto
  from j(2,3) consider "j = 1" | "j = 2" | "j = 3" by linarith
  then have "j = 2"
  proof cases
    case 1
    with finish show ?thesis by simp
  next
    case 2
    then show ?thesis .
  next
    case 3
    with run [of 3] show ?thesis by simp
  qed
  with j(1) have tie: "extendIndex [0, 1, 1, 3] 1 = Inr 2" by simp
  from valid ct scenario tie show ?thesis by simp
qed

section \<open>The keys of the covariance history\<close>

lemma findNearestLowerNeighbour_greatest:
  assumes sorted: "sorted (ts :: real list)" and ne: "ts \<noteq> []" and low: "ts ! 0 \<le> q"
  shows "ts ! (findNearestLowerNeighbour ts q) \<le> q"
    and "\<forall>t \<in> set ts. t \<le> q \<longrightarrow> t \<le> ts ! (findNearestLowerNeighbour ts q)"
proof -
  let ?n = "length (takeWhile (\<lambda>t. t \<le> q) ts)"
  from ne low have pos: "0 < ?n" by (cases ts) simp_all
  have le: "?n \<le> length ts" by (rule length_takeWhile_le)
  have idx: "findNearestLowerNeighbour ts q = ?n - 1"
    by (simp add: findNearestLowerNeighbour_def)
  from pos have "takeWhile (\<lambda>t. t \<le> q) ts ! (?n - 1) \<in> set (takeWhile (\<lambda>t. t \<le> q) ts)"
    by (intro nth_mem) simp
  moreover from pos have "takeWhile (\<lambda>t. t \<le> q) ts ! (?n - 1) = ts ! (?n - 1)"
    by (intro takeWhile_nth) simp
  ultimately show "ts ! (findNearestLowerNeighbour ts q) \<le> q"
    unfolding idx by (auto dest: set_takeWhileD)
  show "\<forall>t \<in> set ts. t \<le> q \<longrightarrow> t \<le> ts ! (findNearestLowerNeighbour ts q)"
  proof (intro ballI impI)
    fix t
    assume "t \<in> set ts" and tq: "t \<le> q"
    then obtain i where i: "i < length ts" "ts ! i = t" by (auto simp: in_set_conv_nth)
    show "t \<le> ts ! (findNearestLowerNeighbour ts q)"
    proof (cases "i < ?n")
      case True
      with pos le have "i \<le> ?n - 1" "?n - 1 < length ts" by simp_all
      with sorted i show ?thesis unfolding idx by (auto simp: sorted_iff_nth_mono)
    next
      case False
      with i have lt: "?n < length ts" and ni: "?n \<le> i" by simp_all
      from nth_length_takeWhile [OF lt] have "q < ts ! ?n" by simp
      moreover from sorted ni i have "ts ! ?n \<le> ts ! i" by (auto simp: sorted_iff_nth_mono)
      ultimately show ?thesis using tq i by simp
    qed
  qed
qed

lemma lookup_earliest:
  assumes sorted: "sorted (ts :: real list)" and ne: "ts \<noteq> []" and low: "ts ! 0 \<le> q"
  shows "ts ! (findNearestLowerNeighbour ts q) = ts ! 0
           \<longleftrightarrow> \<not> (\<exists>t \<in> set ts. ts ! 0 < t \<and> t \<le> q)"
proof
  assume eq: "ts ! (findNearestLowerNeighbour ts q) = ts ! 0"
  show "\<not> (\<exists>t \<in> set ts. ts ! 0 < t \<and> t \<le> q)"
  proof
    assume "\<exists>t \<in> set ts. ts ! 0 < t \<and> t \<le> q"
    then obtain t where t: "t \<in> set ts" "ts ! 0 < t" "t \<le> q" by blast
    with findNearestLowerNeighbour_greatest(2) [OF sorted ne low]
    have "t \<le> ts ! (findNearestLowerNeighbour ts q)" by blast
    with eq t show False by simp
  qed
next
  assume none: "\<not> (\<exists>t \<in> set ts. ts ! 0 < t \<and> t \<le> q)"
  let ?k = "ts ! (findNearestLowerNeighbour ts q)"
  from findNearestLowerNeighbour_less [OF ne] have mem: "?k \<in> set ts" by simp
  from findNearestLowerNeighbour_less [OF ne] sorted have "ts ! 0 \<le> ?k"
    by (auto simp: sorted_iff_nth_mono)
  moreover from findNearestLowerNeighbour_greatest(1) [OF sorted ne low] have "?k \<le> q" .
  ultimately show "?k = ts ! 0" using none mem by force
qed

lemma sorted_le_last:
  assumes "sorted (ts :: real list)" and "t \<in> set ts"
  shows "t \<le> ts ! (length ts - 1)"
proof -
  from assms(2) obtain i where "i < length ts" "ts ! i = t" by (auto simp: in_set_conv_nth)
  with assms(1) show ?thesis by (auto simp: sorted_iff_nth_mono)
qed

text \<open>
  The first query time is the rounded sum of the earliest time and the step; every
  later query time is at or above it, because rounding is monotone.
\<close>

lemma outputLoop_keys:
  assumes sorted: "sorted ts" and ne: "ts \<noteq> []" and pos: "0 < dt"
    and first: "isDouble (ts ! 0)"
    and lt: "ts ! 0 < ts ! (length ts - 1)"
    and reach: "ts ! (length ts - 1) \<le> queryTime dt (ts ! 0) n"
  shows "\<exists>m. outputLoop ts H w P D dt (ts ! 0) Map.empty = Some (Inr m)
     \<and> dom m \<subseteq> set ts \<and> ts ! (length ts - 1) \<in> dom m
     \<and> (ts ! 0 \<in> dom m
          \<longleftrightarrow> \<not> (\<exists>t \<in> set ts. ts ! 0 < t \<and> t \<le> doubleAdd (ts ! 0) dt))"
proof -
  let ?first = "ts ! 0" and ?last = "ts ! (length ts - 1)"
  let ?G = "\<not> (\<exists>t \<in> set ts. ?first < t \<and> t \<le> doubleAdd ?first dt)"
  let ?I = "\<lambda>c (g :: real \<rightharpoonup> eigenResult).
      ?first \<le> c \<and> dom g \<subseteq> set ts
      \<and> (g = Map.empty \<and> c = ?first
           \<or> g \<noteq> Map.empty \<and> doubleAdd ?first dt \<le> c \<and> (?first \<in> dom g \<longleftrightarrow> ?G))
      \<and> (?last \<le> c \<and> g \<noteq> Map.empty \<longrightarrow> ?last \<in> dom g)"
  from pos have "?first \<le> ?first + dt" by simp
  from doubleAdd_ge [OF first this] have up: "?first \<le> doubleAdd ?first dt" .
  have init: "?I ?first Map.empty" by simp
  have "\<exists>c' m. outputLoop ts H w P D dt ?first Map.empty = Some (Inr m)
      \<and> ?last \<le> c' \<and> ?I c' m"
  proof (rule outputLoop_rule [where I = ?I, OF ne _ reach init])
    fix c :: real and g :: "real \<rightharpoonup> eigenResult" and j
    assume inv: "?I c g"
      and j: "extendIndex ts (findNearestLowerNeighbour ts (doubleAdd c dt)) = Inr j"
    let ?q = "doubleAdd c dt"
    let ?k = "ts ! j"
    from inv have "?first \<le> c" by simp
    from doubleAdd_mono [OF this] have first_q: "doubleAdd ?first dt \<le> ?q" .
    with up have low: "?first \<le> ?q" by simp
    from extendIndex_result [OF findNearestLowerNeighbour_less [OF ne], of ?q] j
    have jlt: "j < length ts" and key: "?k = ts ! (findNearestLowerNeighbour ts ?q)"
      by auto
    from jlt have mem: "?k \<in> set ts" by simp
    have dom: "dom (g(?k \<mapsto> covarianceUpTo H w P D j)) = insert ?k (dom g)" by simp
    have nonempty: "g(?k \<mapsto> covarianceUpTo H w P D j) \<noteq> Map.empty" by simp
    have first_iff: "?first \<in> insert ?k (dom g) \<longleftrightarrow> ?G"
    proof (cases "g = Map.empty")
      case True
      with inv have "c = ?first" by simp
      with True lookup_earliest [OF sorted ne low] key show ?thesis by auto
    next
      case False
      with inv have old: "?first \<in> dom g \<longleftrightarrow> ?G" by simp
      show ?thesis
      proof (cases ?G)
        case True
        with old show ?thesis by simp
      next
        case False
        then obtain t where t: "t \<in> set ts" "?first < t" "t \<le> doubleAdd ?first dt"
          by blast
        with first_q have "t \<le> ?q" by simp
        with findNearestLowerNeighbour_greatest(2) [OF sorted ne low] t(1)
        have "t \<le> ?k" unfolding key by blast
        with t have "?k \<noteq> ?first" by simp
        with old False show ?thesis by auto
      qed
    qed
    have last_in: "?last \<in> insert ?k (dom g)" if "?last \<le> ?q"
    proof -
      from that sorted have "\<forall>t \<in> set ts. t \<le> ?q"
        by (auto dest: sorted_le_last)
      from findNearestLowerNeighbour_beyond [OF this] key show ?thesis by simp
    qed
    from inv have sub: "dom g \<subseteq> set ts" by simp
    show "?I ?q (g(?k \<mapsto> covarianceUpTo H w P D j))"
      unfolding dom
    proof (intro conjI impI)
      show "?first \<le> ?q" by (rule low)
      show "insert ?k (dom g) \<subseteq> set ts" using sub mem by simp
      show "g(?k \<mapsto> covarianceUpTo H w P D j) = Map.empty \<and> ?q = ?first
          \<or> g(?k \<mapsto> covarianceUpTo H w P D j) \<noteq> Map.empty \<and> doubleAdd ?first dt \<le> ?q
            \<and> (?first \<in> insert ?k (dom g) \<longleftrightarrow> ?G)"
        using nonempty first_q first_iff by blast
      assume "?last \<le> ?q \<and> g(?k \<mapsto> covarianceUpTo H w P D j) \<noteq> Map.empty"
      then show "?last \<in> insert ?k (dom g)" using last_in by blast
    qed
  qed
  then obtain c' m where run: "outputLoop ts H w P D dt ?first Map.empty = Some (Inr m)"
    and c': "?last \<le> c'" and fin: "?I c' m" by blast
  from c' lt have "c' \<noteq> ?first" by simp
  with fin c' have "dom m \<subseteq> set ts" "?last \<in> dom m" "?first \<in> dom m \<longleftrightarrow> ?G"
    by auto
  with run show ?thesis by blast
qed

subsection \<open>The keys of the history\<close>

text \<open>
  C2, as the code has it. For every valid input whose observation times are doubles and
  every output time step: when all observation times are equal the loop never runs and
  the history is empty; otherwise, in every history that the function returns, every key
  is an observation time and the largest key is the last observation time, whether or
  not the step divides the span (the final query time is at or beyond the last time and
  the lookup is clamped to the last row). The earliest observation time is a key exactly
  when no observation time lies after the earliest time and at or before the first query
  time, which is the rounded sum of the earliest time and the step that line 240
  computes: keys are times of observations, not query times. The function returns such a
  history whenever the query time reaches the last observation time after finitely many
  additions of the step.
\<close>

theorem history_keys:
  assumes valid: "validInput getObservableSize measurementData A nf w P"
    and doubles: "\<forall>t \<in> set (getConcatenatedTimeVector getObservableSize measurementData).
        isDouble t"
  shows "(orderedTimeVectorOf getObservableSize measurementData ! 0 =
            orderedTimeVectorOf getObservableSize measurementData !
              (length (orderedTimeVectorOf getObservableSize measurementData) - 1) \<longrightarrow>
          calculateCovarianceMatrixAsFunctionOfTime getObservableSize measurementData A nf
            outputTimeStep w P = Some (Inr Map.empty))
       \<and> (orderedTimeVectorOf getObservableSize measurementData ! 0 <
            orderedTimeVectorOf getObservableSize measurementData !
              (length (orderedTimeVectorOf getObservableSize measurementData) - 1) \<longrightarrow>
          (\<forall>history.
             calculateCovarianceMatrixAsFunctionOfTime getObservableSize measurementData A nf
               outputTimeStep w P = Some (Inr history)
             \<longrightarrow> dom history \<subseteq> set (orderedTimeVectorOf getObservableSize measurementData)
               \<and> Max (dom history) =
                   orderedTimeVectorOf getObservableSize measurementData !
                     (length (orderedTimeVectorOf getObservableSize measurementData) - 1)
               \<and> (orderedTimeVectorOf getObservableSize measurementData ! 0 \<in> dom history
                    \<longleftrightarrow> \<not> (\<exists>t \<in> set (orderedTimeVectorOf getObservableSize measurementData).
                            orderedTimeVectorOf getObservableSize measurementData ! 0 < t
                            \<and> t \<le> doubleAdd
                                  (orderedTimeVectorOf getObservableSize measurementData ! 0)
                                  outputTimeStep)))
          \<and> ((\<exists>n. orderedTimeVectorOf getObservableSize measurementData !
                    (length (orderedTimeVectorOf getObservableSize measurementData) - 1)
                  \<le> queryTime outputTimeStep
                      (orderedTimeVectorOf getObservableSize measurementData ! 0) n)
              \<longrightarrow> (\<exists>history.
                    calculateCovarianceMatrixAsFunctionOfTime getObservableSize
                      measurementData A nf outputTimeStep w P = Some (Inr history))))"
proof -
  let ?ts = "orderedTimeVectorOf getObservableSize measurementData"
  let ?run = "calculateCovarianceMatrixAsFunctionOfTime getObservableSize measurementData
      A nf outputTimeStep w P"
  from valid have ne: "?ts \<noteq> []"
    by (simp add: validInput_def orderedTimeVectorOf_Nil)
  have sorted: "sorted ?ts" by (simp add: orderedTimeVectorOf_sort)
  from ne have "?ts ! 0 \<in> set ?ts" by simp
  with doubles have first: "isDouble (?ts ! 0)" by (simp add: orderedTimeVectorOf_sort)
  have equal: "?run = Some (Inr Map.empty)" if "?ts ! 0 = ?ts ! (length ?ts - 1)"
  proof -
    from that have "\<not> ?ts ! 0 < ?ts ! (length ?ts - 1)" by simp
    from outputLoop_stop [OF this] show ?thesis
      unfolding calculate_valid [OF valid] .
  qed
  have keys: "dom history \<subseteq> set ?ts \<and> Max (dom history) = ?ts ! (length ?ts - 1)
      \<and> (?ts ! 0 \<in> dom history
           \<longleftrightarrow> \<not> (\<exists>t \<in> set ?ts. ?ts ! 0 < t \<and> t \<le> doubleAdd (?ts ! 0) outputTimeStep))"
    if lt: "?ts ! 0 < ?ts ! (length ?ts - 1)" and run: "?run = Some (Inr history)"
    for history
  proof -
    from run have "?run \<noteq> None" by simp
    with calculate_returns [OF valid] obtain n
      where reach: "?ts ! (length ?ts - 1) \<le> queryTime outputTimeStep (?ts ! 0) n"
      by blast
    have pos: "0 < outputTimeStep"
    proof (rule ccontr)
      assume "\<not> 0 < outputTimeStep"
      then have "outputTimeStep \<le> 0" by simp
      from queryTime_nonpositive_step [OF first this, of n] reach lt show False by simp
    qed
    from outputLoop_keys [OF sorted ne pos first lt reach] obtain m
      where m: "outputLoop ?ts (timeOrderedMatrixOf getObservableSize measurementData A)
          (timeOrderedDiagonalOfWeightMatrix (timeOrderOf getObservableSize measurementData) w)
          P (asDiagonal nf) outputTimeStep (?ts ! 0) Map.empty = Some (Inr m)"
        and sub: "dom m \<subseteq> set ?ts"
        and last: "?ts ! (length ?ts - 1) \<in> dom m"
        and earliest: "?ts ! 0 \<in> dom m
            \<longleftrightarrow> \<not> (\<exists>t \<in> set ?ts. ?ts ! 0 < t \<and> t \<le> doubleAdd (?ts ! 0) outputTimeStep)"
      by blast
    from run m have same: "m = history" by (simp only: calculate_valid [OF valid]) simp
    from sub have fin: "finite (dom m)" by (rule finite_subset) simp
    have "Max (dom m) = ?ts ! (length ?ts - 1)"
    proof (rule Max_eqI [OF fin _ last])
      fix t
      assume "t \<in> dom m"
      with sub have "t \<in> set ?ts" by blast
      from sorted_le_last [OF sorted this] show "t \<le> ?ts ! (length ?ts - 1)" .
    qed
    with sub earliest show ?thesis unfolding same by blast
  qed
  have returns: "\<exists>history. ?run = Some (Inr history)"
    if "\<exists>n. ?ts ! (length ?ts - 1) \<le> queryTime outputTimeStep (?ts ! 0) n"
  proof -
    from that obtain n
      where "?ts ! (length ?ts - 1) \<le> queryTime outputTimeStep (?ts ! 0) n" ..
    from calculate_entries [OF valid this] show ?thesis by blast
  qed
  from equal keys returns show ?thesis by blast
qed

text \<open>
  Two range observations at the doubles nearest to 0.1 and to 0.30000000000000004
  (partials 1, weights 1, a-priori inverse covariance 1, normalization factor 1) with
  the step the double nearest to 0.2. The exact sum of the earliest time and the step
  is below the second time, but line 240 rounds it up to the second time: the only
  query time finds the second observation, and the earliest time is not a key.
\<close>

lemma example_rounded_step:
  "validInput (\<lambda>u::unit. 1)
      [((), [((), ([0, 0], ([3602879701896397 / 36028797018963968,
                            1351079888211149 / 4503599627370496], ())))])]
      (Matrix 1 [[1], [1]]) [1] [1, 1] (Matrix 1 [[1]])
   \<and> getConcatenatedTimeVector (\<lambda>u::unit. 1)
      [((), [((), ([0, 0], ([3602879701896397 / 36028797018963968,
                            1351079888211149 / 4503599627370496], ())))])]
      = [3602879701896397 / 36028797018963968, 1351079888211149 / 4503599627370496]
   \<and> orderedTimeVectorOf (\<lambda>u::unit. 1)
      [((), [((), ([0, 0], ([3602879701896397 / 36028797018963968,
                            1351079888211149 / 4503599627370496], ())))])]
      = [3602879701896397 / 36028797018963968, 1351079888211149 / 4503599627370496]
   \<and> calculateCovarianceMatrixAsFunctionOfTime (\<lambda>u::unit. 1)
         [((), [((), ([0, 0], ([3602879701896397 / 36028797018963968,
                               1351079888211149 / 4503599627370496], ())))])]
         (Matrix 1 [[1], [1]]) [1] (3602879701896397 / 18014398509481984) [1, 1]
         (Matrix 1 [[1]])
       = Some (Inr (Map.empty(1351079888211149 / 4503599627370496
                                \<mapsto> Defined (Matrix 1 [[1 / 3]]))))"
proof -
  let ?t0 = "3602879701896397 / 36028797018963968 :: real"
  let ?t1 = "1351079888211149 / 4503599627370496 :: real"
  let ?dt = "3602879701896397 / 18014398509481984 :: real"
  let ?md = "[((), [((), ([0, 0], ([?t0, ?t1], ())))])] :: (unit, unit, unit) PodInputType"
  have ct: "getConcatenatedTimeVector (\<lambda>u::unit. 1) ?md = [?t0, ?t1]"
    by (simp add: getConcatenatedTimeVector_def currentTimesList_def)
  have valid: "validInput (\<lambda>u::unit. 1) ?md (Matrix 1 [[1], [1]]) [1] [1, 1] (Matrix 1 [[1]])"
    by (simp add: validInput_def checkInput_def rows_def ct)
  have s: "sorted [?t0, ?t1]" by simp
  have ot: "orderedTimeVectorOf (\<lambda>u::unit. 1) ?md = [?t0, ?t1]"
    by (simp add: sorted_input(2) ct)
  have i1: "extendIndex [?t0, ?t1]
      (findNearestLowerNeighbour [?t0, ?t1] (doubleAdd ?t0 ?dt)) = Inr 1"
    by (simp add: extendIndex_def findNearestLowerNeighbour_def example_tenths(3))
  let ?c = "covarianceUpTo (Matrix 1 [[1], [1]]) [1, 1] (Matrix 1 [[1]]) (asDiagonal [1])"
  have "outputLoop [?t0, ?t1] (Matrix 1 [[1], [1]]) [1, 1] (Matrix 1 [[1]]) (asDiagonal [1])
          ?dt ?t0 Map.empty =
        outputLoop [?t0, ?t1] (Matrix 1 [[1], [1]]) [1, 1] (Matrix 1 [[1]]) (asDiagonal [1])
          ?dt (doubleAdd ?t0 ?dt) (Map.empty([?t0, ?t1] ! 1 \<mapsto> ?c 1))"
    by (rule outputLoop_step [OF _ i1]) simp
  also have "\<dots> = Some (Inr (Map.empty([?t0, ?t1] ! 1 \<mapsto> ?c 1)))"
    by (rule outputLoop_stop) (simp add: example_tenths(3))
  finally have loop: "outputLoop [?t0, ?t1] (Matrix 1 [[1], [1]]) [1, 1] (Matrix 1 [[1]])
      (asDiagonal [1]) ?dt ([?t0, ?t1] ! 0) Map.empty = Some (Inr (Map.empty(?t1 \<mapsto> ?c 1)))"
    by simp
  have c1: "?c 1 = Defined (Matrix 1 [[1 / 3]])"
    by (simp add: matrix_defs)
  have "calculateCovarianceMatrixAsFunctionOfTime (\<lambda>u::unit. 1) ?md
         (Matrix 1 [[1], [1]]) [1] ?dt [1, 1] (Matrix 1 [[1]])
       = Some (Inr (Map.empty(?t1 \<mapsto> Defined (Matrix 1 [[1 / 3]]))))"
    unfolding calculate_sorted [OF valid ct s] loop c1 ..
  with valid ct ot show ?thesis by simp
qed

text \<open>
  The theorem at this input and at two observations of the same time 0: the rounded
  sum decides that the earliest time is no key, and equal times give the empty history.
\<close>

theorem history_keys_witness:
  "validInput (\<lambda>u::unit. 1)
      [((), [((), ([0, 0], ([3602879701896397 / 36028797018963968,
                            1351079888211149 / 4503599627370496], ())))])]
      (Matrix 1 [[1], [1]]) [1] [1, 1] (Matrix 1 [[1]])
   \<and> isDouble (3602879701896397 / 36028797018963968)
   \<and> isDouble (1351079888211149 / 4503599627370496)
   \<and> (3602879701896397 / 36028797018963968 :: real)
       + 3602879701896397 / 18014398509481984 < 1351079888211149 / 4503599627370496
   \<and> doubleAdd (3602879701896397 / 36028797018963968)
        (3602879701896397 / 18014398509481984) = 1351079888211149 / 4503599627370496
   \<and> (\<exists>history. calculateCovarianceMatrixAsFunctionOfTime (\<lambda>u::unit. 1)
         [((), [((), ([0, 0], ([3602879701896397 / 36028797018963968,
                               1351079888211149 / 4503599627370496], ())))])]
         (Matrix 1 [[1], [1]]) [1] (3602879701896397 / 18014398509481984) [1, 1]
         (Matrix 1 [[1]]) = Some (Inr history)
        \<and> Max (dom history) = 1351079888211149 / 4503599627370496
        \<and> 3602879701896397 / 36028797018963968 \<notin> dom history)
   \<and> validInput (\<lambda>u::unit. 1) [((), [((), ([0, 0], ([0, 0], ())))])]
      (Matrix 1 [[1], [1]]) [1] [1, 1] (Matrix 1 [[1]])
   \<and> calculateCovarianceMatrixAsFunctionOfTime (\<lambda>u::unit. 1)
         [((), [((), ([0, 0], ([0, 0], ())))])]
         (Matrix 1 [[1], [1]]) [1] 1 [1, 1] (Matrix 1 [[1]]) = Some (Inr Map.empty)"
proof -
  let ?t0 = "3602879701896397 / 36028797018963968 :: real"
  let ?t1 = "1351079888211149 / 4503599627370496 :: real"
  let ?dt = "3602879701896397 / 18014398509481984 :: real"
  let ?md = "[((), [((), ([0, 0], ([?t0, ?t1], ())))])] :: (unit, unit, unit) PodInputType"
  let ?eq = "[((), [((), ([0, 0], ([0, 0], ())))])] :: (unit, unit, unit) PodInputType"
  let ?run = "calculateCovarianceMatrixAsFunctionOfTime (\<lambda>u::unit. 1) ?md
         (Matrix 1 [[1], [1]]) [1] ?dt [1, 1] (Matrix 1 [[1]])"
  from example_rounded_step
  have valid: "validInput (\<lambda>u::unit. 1) ?md (Matrix 1 [[1], [1]]) [1] [1, 1] (Matrix 1 [[1]])"
    and ct: "getConcatenatedTimeVector (\<lambda>u::unit. 1) ?md = [?t0, ?t1]"
    and ot: "orderedTimeVectorOf (\<lambda>u::unit. 1) ?md = [?t0, ?t1]"
    and run: "?run = Some (Inr (Map.empty(?t1 \<mapsto> Defined (Matrix 1 [[1 / 3]]))))"
    by blast+
  have doubles: "\<forall>t \<in> set (getConcatenatedTimeVector (\<lambda>u::unit. 1) ?md). isDouble t"
    unfolding ct using example_tenths(1,2) by simp
  have lt: "orderedTimeVectorOf (\<lambda>u::unit. 1) ?md ! 0
      < orderedTimeVectorOf (\<lambda>u::unit. 1) ?md
          ! (length (orderedTimeVectorOf (\<lambda>u::unit. 1) ?md) - 1)"
    unfolding ot by simp
  from history_keys [OF valid doubles, of ?dt] lt run
  have "Max (dom (Map.empty(?t1 \<mapsto> Defined (Matrix 1 [[1 / 3]])))) =
      orderedTimeVectorOf (\<lambda>u::unit. 1) ?md
          ! (length (orderedTimeVectorOf (\<lambda>u::unit. 1) ?md) - 1)"
    and "orderedTimeVectorOf (\<lambda>u::unit. 1) ?md ! 0
           \<in> dom (Map.empty(?t1 \<mapsto> Defined (Matrix 1 [[1 / 3]])))
         \<longleftrightarrow> \<not> (\<exists>t \<in> set (orderedTimeVectorOf (\<lambda>u::unit. 1) ?md).
                 orderedTimeVectorOf (\<lambda>u::unit. 1) ?md ! 0 < t
                 \<and> t \<le> doubleAdd (orderedTimeVectorOf (\<lambda>u::unit. 1) ?md ! 0) ?dt)"
    by blast+
  then have keys: "Max (dom (Map.empty(?t1 \<mapsto> Defined (Matrix 1 [[1 / 3]])))) = ?t1"
    "?t0 \<notin> dom (Map.empty(?t1 \<mapsto> Defined (Matrix 1 [[1 / 3]])))"
    unfolding ot by (simp_all add: example_tenths(3))
  with run have first: "\<exists>history. ?run = Some (Inr history)
        \<and> Max (dom history) = ?t1 \<and> ?t0 \<notin> dom history"
    by blast
  have ct0: "getConcatenatedTimeVector (\<lambda>u::unit. 1) ?eq = [0, 0]"
    by (simp add: getConcatenatedTimeVector_def currentTimesList_def)
  have valid0: "validInput (\<lambda>u::unit. 1) ?eq (Matrix 1 [[1], [1]]) [1] [1, 1] (Matrix 1 [[1]])"
    by (simp add: validInput_def checkInput_def rows_def ct0)
  have ot0: "orderedTimeVectorOf (\<lambda>u::unit. 1) ?eq = [0, 0]"
    by (simp add: sorted_input(2) ct0)
  have doubles0: "\<forall>t \<in> set (getConcatenatedTimeVector (\<lambda>u::unit. 1) ?eq). isDouble t"
    unfolding ct0 using isDouble_small_ints(1) by simp
  from history_keys [OF valid0 doubles0, of 1]
  have second: "calculateCovarianceMatrixAsFunctionOfTime (\<lambda>u::unit. 1) ?eq
         (Matrix 1 [[1], [1]]) [1] 1 [1, 1] (Matrix 1 [[1]]) = Some (Inr Map.empty)"
    unfolding ot0 by simp
  have exact: "?t0 + ?dt < ?t1" by simp
  from valid example_tenths exact first valid0 second show ?thesis by blast
qed

text \<open>
  Two range observations at times 0 and 5 (partials 1, weights 1, a-priori inverse
  covariance 1, normalization factor 1) with the step 2. The query times are 2, 4 and
  6, all sums exact: the first two find the observation of time 0, the last is clamped
  to the observation of time 5.
\<close>

lemma example_step_two:
  "validInput (\<lambda>u::unit. 1) [((), [((), ([0, 0], ([0, 5], ())))])]
      (Matrix 1 [[1], [1]]) [1] [1, 1] (Matrix 1 [[1]])
   \<and> orderedTimeVectorOf (\<lambda>u::unit. 1) [((), [((), ([0, 0], ([0, 5], ())))])] = [0, 5]
   \<and> calculateCovarianceMatrixAsFunctionOfTime (\<lambda>u::unit. 1)
         [((), [((), ([0, 0], ([0, 5], ())))])]
         (Matrix 1 [[1], [1]]) [1] 2 [1, 1] (Matrix 1 [[1]])
       = Some (Inr (Map.empty(0 \<mapsto> Defined (Matrix 1 [[1 / 2]]),
                             5 \<mapsto> Defined (Matrix 1 [[1 / 3]]))))"
proof -
  have ct: "getConcatenatedTimeVector (\<lambda>u::unit. 1) [((), [((), ([0, 0], ([0, 5], ())))])]
      = [0, 5]"
    by (simp add: getConcatenatedTimeVector_def currentTimesList_def)
  have valid: "validInput (\<lambda>u::unit. 1) [((), [((), ([0, 0], ([0, 5], ())))])]
      (Matrix 1 [[1], [1]]) [1] [1, 1] (Matrix 1 [[1]])"
    by (simp add: validInput_def ct checkInput_def rows_def)
  have s: "sorted [0, 5 :: real]" by simp
  have ordered: "orderedTimeVectorOf (\<lambda>u::unit. 1) [((), [((), ([0, 0], ([0, 5], ())))])]
      = [0, 5]"
    using sorted_input(2) [of "\<lambda>u::unit. 1" "[((), [((), ([0, 0], ([0, 5], ())))])]"]
    by (simp add: ct)
  have t0: "tieLoop [0, 5] 0 = Inr 0"
    by (subst tieLoop.simps) simp
  have i1: "extendIndex [0, 5] (findNearestLowerNeighbour [0, 5] (doubleAdd 0 2)) = Inr 0"
    and i2: "extendIndex [0, 5] (findNearestLowerNeighbour [0, 5] (doubleAdd 2 2)) = Inr 0"
    and i3: "extendIndex [0, 5] (findNearestLowerNeighbour [0, 5] (doubleAdd 4 2)) = Inr 1"
    using t0
    by (simp_all add: extendIndex_def findNearestLowerNeighbour_def doubleAdd_small_ints)
  let ?c = "covarianceUpTo (Matrix 1 [[1], [1]]) [1, 1] (Matrix 1 [[1]]) (asDiagonal [1])"
  have "outputLoop [0, 5] (Matrix 1 [[1], [1]]) [1, 1] (Matrix 1 [[1]]) (asDiagonal [1]) 2
          0 Map.empty =
        outputLoop [0, 5] (Matrix 1 [[1], [1]]) [1, 1] (Matrix 1 [[1]]) (asDiagonal [1]) 2
          (doubleAdd 0 2) (Map.empty([0, 5] ! 0 \<mapsto> ?c 0))"
    by (rule outputLoop_step [OF _ i1]) simp
  also have "\<dots> =
        outputLoop [0, 5] (Matrix 1 [[1], [1]]) [1, 1] (Matrix 1 [[1]]) (asDiagonal [1]) 2
          2 (Map.empty([0, 5] ! 0 \<mapsto> ?c 0))"
    by (simp only: doubleAdd_small_ints)
  also have "\<dots> =
        outputLoop [0, 5] (Matrix 1 [[1], [1]]) [1, 1] (Matrix 1 [[1]]) (asDiagonal [1]) 2
          (doubleAdd 2 2) (Map.empty([0, 5] ! 0 \<mapsto> ?c 0, [0, 5] ! 0 \<mapsto> ?c 0))"
    by (rule outputLoop_step [OF _ i2]) simp
  also have "\<dots> =
        outputLoop [0, 5] (Matrix 1 [[1], [1]]) [1, 1] (Matrix 1 [[1]]) (asDiagonal [1]) 2
          4 (Map.empty([0, 5] ! 0 \<mapsto> ?c 0, [0, 5] ! 0 \<mapsto> ?c 0))"
    by (simp only: doubleAdd_small_ints)
  also have "\<dots> =
        outputLoop [0, 5] (Matrix 1 [[1], [1]]) [1, 1] (Matrix 1 [[1]]) (asDiagonal [1]) 2
          (doubleAdd 4 2)
          (Map.empty([0, 5] ! 0 \<mapsto> ?c 0, [0, 5] ! 0 \<mapsto> ?c 0, [0, 5] ! 1 \<mapsto> ?c 1))"
    by (rule outputLoop_step [OF _ i3]) simp
  also have "\<dots> = Some (Inr
          (Map.empty([0, 5] ! 0 \<mapsto> ?c 0, [0, 5] ! 0 \<mapsto> ?c 0, [0, 5] ! 1 \<mapsto> ?c 1)))"
    by (rule outputLoop_stop) (simp add: doubleAdd_small_ints)
  finally have loop: "outputLoop [0, 5] (Matrix 1 [[1], [1]]) [1, 1] (Matrix 1 [[1]])
      (asDiagonal [1]) 2 ([0, 5] ! 0) Map.empty =
      Some (Inr (Map.empty(0 \<mapsto> ?c 0, 5 \<mapsto> ?c 1)))"
    by simp
  have c0: "?c 0 = Defined (Matrix 1 [[1 / 2]])" and c1: "?c 1 = Defined (Matrix 1 [[1 / 3]])"
    by (simp_all add: matrix_defs)
  have "calculateCovarianceMatrixAsFunctionOfTime (\<lambda>u::unit. 1)
         [((), [((), ([0, 0], ([0, 5], ())))])]
         (Matrix 1 [[1], [1]]) [1] 2 [1, 1] (Matrix 1 [[1]])
       = Some (Inr (Map.empty(0 \<mapsto> Defined (Matrix 1 [[1 / 2]]),
                             5 \<mapsto> Defined (Matrix 1 [[1 / 3]]))))"
    unfolding calculate_sorted [OF valid ct s] loop c0 c1 ..
  with valid ordered show ?thesis by simp
qed

text \<open>
  C2 as stated fails on this input: the step 2 does not divide the span 5, yet the
  history has an entry keyed by the earliest time 0, and its largest key is the last
  observation time 5, not a smaller one.
\<close>

theorem history_keys_counterexample:
  "validInput (\<lambda>u::unit. 1) [((), [((), ([0, 0], ([0, 5], ())))])]
      (Matrix 1 [[1], [1]]) [1] [1, 1] (Matrix 1 [[1]])
   \<and> calculateCovarianceMatrixAsFunctionOfTime (\<lambda>u::unit. 1)
         [((), [((), ([0, 0], ([0, 5], ())))])]
         (Matrix 1 [[1], [1]]) [1] 2 [1, 1] (Matrix 1 [[1]])
       = Some (Inr (Map.empty(0 \<mapsto> Defined (Matrix 1 [[1 / 2]]),
                             5 \<mapsto> Defined (Matrix 1 [[1 / 3]]))))
   \<and> dom (Map.empty(0 \<mapsto> Defined (Matrix 1 [[1 / 2]]),
                    (5::real) \<mapsto> Defined (Matrix 1 [[1 / 3]]))) = {0, 5}
   \<and> real_of_int \<lfloor>(5 - 0) / (2::real)\<rfloor> * 2 \<noteq> 5 - 0"
  using example_step_two by auto

end
